theory Spec2Isabelle
  imports Main
begin

section \<open>Room records (internal/model/room.go)\<close>

text \<open>
  Times are instants on an integer clock. Every function of the source that calls
  \<^verbatim>\<open>time.Now()\<close> takes the instant as its first argument \<open>now\<close>; all the readings of
  the clock during the handling of one frame are that one instant.
\<close>

type_synonym time = int

definition MaxRoomUsers :: nat where
  "MaxRoomUsers = 10"

record Room =
  room_ID :: string
  room_Users :: "string list"
  room_CreatedAt :: time
  room_UpdatedAt :: time

definition CanJoin :: "Room \<Rightarrow> bool" where
  "CanJoin r = (length (room_Users r) < MaxRoomUsers)"

text \<open>
  \<^verbatim>\<open>AddUser\<close> mutates the receiver and returns a bool; the model returns the bool and
  the record after the call. The capacity test comes first, as in the source.
\<close>

definition AddUser :: "time \<Rightarrow> Room \<Rightarrow> string \<Rightarrow> bool \<times> Room" where
  "AddUser now r userID =
     (if \<not> CanJoin r then (False, r)
      else if userID \<in> set (room_Users r) then (True, r)
      else (True, r\<lparr>room_Users := room_Users r @ [userID], room_UpdatedAt := now\<rparr>))"

text \<open>
  \<^verbatim>\<open>RemoveUser\<close> cuts the first position that holds the id out of the slice
  (\<^verbatim>\<open>append(r.Users[:i], r.Users[i+1:]...)\<close>) and returns at once: \<^const>\<open>remove1\<close>.
\<close>

definition RemoveUser :: "time \<Rightarrow> Room \<Rightarrow> string \<Rightarrow> bool \<times> Room" where
  "RemoveUser now r userID =
     (if userID \<in> set (room_Users r)
      then (True, r\<lparr>room_Users := remove1 userID (room_Users r), room_UpdatedAt := now\<rparr>)
      else (False, r))"

definition IsEmpty :: "Room \<Rightarrow> bool" where
  "IsEmpty r = (length (room_Users r) = 0)"

definition GetOtherUsers :: "Room \<Rightarrow> string \<Rightarrow> string list" where
  "GetOtherUsers r userID = filter (\<lambda>i. i \<noteq> userID) (room_Users r)"

section \<open>User sessions (internal/model/user.go)\<close>

record UserSession =
  us_ID :: string
  us_SessionID :: string
  us_RoomID :: string
  us_CreatedAt :: time
  us_LastSeen :: time

section \<open>Errors\<close>

text \<open>
  One constructor for each error value the Go code builds. \<open>KVError\<close> is a transport
  error of the Redis client, wrapped or passed on unchanged by the repository.
\<close>

datatype error =
    KVError
  | RoomIsFull
  | RoomFullOrUserExists
  | UserNotFound string
  | UnmarshalFailed
  | ConnectionNotFound string
  | UnknownMessageType string
  | TargetNotConnected string
  | WriteFailed

section \<open>The shared key-value store and the Redis repository\<close>

text \<open>
  The store holds the decoded records under the keys \<^verbatim>\<open>room:<id>\<close> and
  \<^verbatim>\<open>user:<id>\<close>: two maps, since the two prefixes never collide. Values are
  written by \<^verbatim>\<open>json.Marshal\<close> and read back by \<^verbatim>\<open>json.Unmarshal\<close> of the same
  struct, so a stored value always decodes. Expiry after 24 hours is real time and is
  not part of the model.

  Every call of the Redis client may fail with a transport error. \<open>faults\<close> is the
  script of the environment: one entry is consumed by each client call, \<open>True\<close> makes
  that call fail, and the empty script means that no further call fails.
\<close>

record store =
  rooms :: "string \<rightharpoonup> Room"
  users :: "string \<rightharpoonup> UserSession"
  faults :: "bool list"

definition client_call :: "store \<Rightarrow> bool \<times> store" where
  "client_call k = (case faults k of [] \<Rightarrow> (False, k) | f # fs \<Rightarrow> (f, k\<lparr>faults := fs\<rparr>))"

definition SaveUser :: "store \<Rightarrow> UserSession \<Rightarrow> error option \<times> store" where
  "SaveUser k user =
     (case client_call k of
        (True, k1) \<Rightarrow> (Some KVError, k1)
      | (False, k1) \<Rightarrow> (None, k1\<lparr>users := (users k1)(us_ID user \<mapsto> user)\<rparr>))"

definition GetUser :: "store \<Rightarrow> string \<Rightarrow> (error + UserSession option) \<times> store" where
  "GetUser k userID =
     (case client_call k of
        (True, k1) \<Rightarrow> (Inl KVError, k1)
      | (False, k1) \<Rightarrow> (Inr (users k1 userID), k1))"

definition DeleteUser :: "store \<Rightarrow> string \<Rightarrow> error option \<times> store" where
  "DeleteUser k userID =
     (case client_call k of
        (True, k1) \<Rightarrow> (Some KVError, k1)
      | (False, k1) \<Rightarrow> (None, k1\<lparr>users := (users k1)(userID := None)\<rparr>))"

definition UpdateUserRoom :: "time \<Rightarrow> store \<Rightarrow> string \<Rightarrow> string \<Rightarrow> error option \<times> store" where
  "UpdateUserRoom now k userID roomID =
     (case GetUser k userID of
        (Inl e, k1) \<Rightarrow> (Some e, k1)
      | (Inr None, k1) \<Rightarrow> (Some (UserNotFound userID), k1)
      | (Inr (Some user), k1) \<Rightarrow> SaveUser k1 (user\<lparr>us_RoomID := roomID, us_LastSeen := now\<rparr>))"

text \<open>\<^verbatim>\<open>SaveRoom\<close> writes under the key built from the record's own \<^verbatim>\<open>ID\<close> field.\<close>

definition SaveRoom :: "store \<Rightarrow> Room \<Rightarrow> error option \<times> store" where
  "SaveRoom k room =
     (case client_call k of
        (True, k1) \<Rightarrow> (Some KVError, k1)
      | (False, k1) \<Rightarrow> (None, k1\<lparr>rooms := (rooms k1)(room_ID room \<mapsto> room)\<rparr>))"

definition GetRoom :: "store \<Rightarrow> string \<Rightarrow> (error + Room option) \<times> store" where
  "GetRoom k roomID =
     (case client_call k of
        (True, k1) \<Rightarrow> (Inl KVError, k1)
      | (False, k1) \<Rightarrow> (Inr (rooms k1 roomID), k1))"

definition DeleteRoom :: "store \<Rightarrow> string \<Rightarrow> error option \<times> store" where
  "DeleteRoom k roomID =
     (case client_call k of
        (True, k1) \<Rightarrow> (Some KVError, k1)
      | (False, k1) \<Rightarrow> (None, k1\<lparr>rooms := (rooms k1)(roomID := None)\<rparr>))"

definition AddUserToRoom :: "time \<Rightarrow> store \<Rightarrow> string \<Rightarrow> string \<Rightarrow> error option \<times> store" where
  "AddUserToRoom now k roomID userID =
     (case GetRoom k roomID of
        (Inl e, k1) \<Rightarrow> (Some e, k1)
      | (Inr found, k1) \<Rightarrow>
          (let room = (case found of
                         None \<Rightarrow> \<lparr>room_ID = roomID, room_Users = [],
                                  room_CreatedAt = now, room_UpdatedAt = now\<rparr>
                       | Some r \<Rightarrow> r)
           in case AddUser now room userID of
                (False, _) \<Rightarrow> (Some RoomFullOrUserExists, k1)
              | (True, room') \<Rightarrow> SaveRoom k1 room'))"

definition RemoveUserFromRoom :: "time \<Rightarrow> store \<Rightarrow> string \<Rightarrow> string \<Rightarrow> error option \<times> store" where
  "RemoveUserFromRoom now k roomID userID =
     (case GetRoom k roomID of
        (Inl e, k1) \<Rightarrow> (Some e, k1)
      | (Inr None, k1) \<Rightarrow> (None, k1)
      | (Inr (Some r), k1) \<Rightarrow>
          (let room' = snd (RemoveUser now r userID)
           in if IsEmpty room' then DeleteRoom k1 roomID else SaveRoom k1 room'))"

definition GetRoomUsers :: "store \<Rightarrow> string \<Rightarrow> (error + string list) \<times> store" where
  "GetRoomUsers k roomID =
     (case GetRoom k roomID of
        (Inl e, k1) \<Rightarrow> (Inl e, k1)
      | (Inr None, k1) \<Rightarrow> (Inr [], k1)
      | (Inr (Some r), k1) \<Rightarrow> (Inr (room_Users r), k1))"

section \<open>The room service\<close>

text \<open>
  The methods of \<^verbatim>\<open>RoomService\<close>. Its \<^verbatim>\<open>GetRoom\<close> and \<^verbatim>\<open>GetRoomUsers\<close> only pass the
  call on to the repository, so the repository's functions stand for them.
\<close>

definition JoinRoom :: "time \<Rightarrow> store \<Rightarrow> string \<Rightarrow> string \<Rightarrow> (error + Room option) \<times> store" where
  "JoinRoom now k userID roomID =
     (case GetRoom k roomID of
        (Inl e, k1) \<Rightarrow> (Inl e, k1)
      | (Inr found, k1) \<Rightarrow>
          if (case found of None \<Rightarrow> False | Some r \<Rightarrow> \<not> CanJoin r) then (Inl RoomIsFull, k1)
          else (case AddUserToRoom now k1 roomID userID of
                  (Some e, k2) \<Rightarrow> (Inl e, k2)
                | (None, k2) \<Rightarrow>
                    (case UpdateUserRoom now k2 userID roomID of
                       (Some e, k3) \<Rightarrow> (Inl e, k3)
                     | (None, k3) \<Rightarrow> GetRoom k3 roomID)))"

definition LeaveRoom :: "time \<Rightarrow> store \<Rightarrow> string \<Rightarrow> string \<Rightarrow> error option \<times> store" where
  "LeaveRoom now k userID roomID =
     (case RemoveUserFromRoom now k roomID userID of
        (Some e, k1) \<Rightarrow> (Some e, k1)
      | (None, k1) \<Rightarrow> UpdateUserRoom now k1 userID [])"

definition GetOtherUsersInRoom :: "store \<Rightarrow> string \<Rightarrow> string \<Rightarrow> (error + string list) \<times> store" where
  "GetOtherUsersInRoom k roomID excludeUserID =
     (case GetRoomUsers k roomID of
        (Inl e, k1) \<Rightarrow> (Inl e, k1)
      | (Inr us, k1) \<Rightarrow> (Inr (filter (\<lambda>userID. userID \<noteq> excludeUserID) us), k1))"

definition IsRoomFull :: "store \<Rightarrow> string \<Rightarrow> (error + bool) \<times> store" where
  "IsRoomFull k roomID =
     (case GetRoom k roomID of
        (Inl e, k1) \<Rightarrow> (Inl e, k1)
      | (Inr None, k1) \<Rightarrow> (Inr False, k1)
      | (Inr (Some r), k1) \<Rightarrow> (Inr (\<not> CanJoin r), k1))"

text \<open>The member list of a room as the store has it: empty for an absent room.\<close>

definition members :: "store \<Rightarrow> string \<Rightarrow> string list" where
  "members k roomID = (case rooms k roomID of None \<Rightarrow> [] | Some r \<Rightarrow> room_Users r)"


section \<open>The user service\<close>

definition UpdateUserActivity :: "time \<Rightarrow> store \<Rightarrow> string \<Rightarrow> error option \<times> store" where
  "UpdateUserActivity now k userID =
     (case GetUser k userID of
        (Inl e, k1) \<Rightarrow> (Some e, k1)
      | (Inr None, k1) \<Rightarrow> (None, k1)
      | (Inr (Some user), k1) \<Rightarrow> SaveUser k1 (user\<lparr>us_LastSeen := now\<rparr>))"

section \<open>Frames (the message model)\<close>

text \<open>
  \<^verbatim>\<open>Message.Data\<close> is a \<^verbatim>\<open>json.RawMessage\<close>. A payload that arrived from a client is
  kept as its raw bytes (\<open>Raw\<close>); a payload the engine builds is kept as the Go value it
  hands to \<^verbatim>\<open>json.Marshal\<close>. \<open>NoData\<close> is the nil payload.
\<close>

datatype payload =
    NoData
  | Raw string
  | ErrorData int string
  | UserJoinedData string "string list"
  | UserLeftData string "string list"

record Message =
  msg_Type :: string
  msg_RoomID :: string
  msg_UserID :: string
  msg_TargetID :: string
  msg_Data :: payload
  msg_Timestamp :: time

abbreviation MessageTypeJoinRoom :: string where "MessageTypeJoinRoom \<equiv> ''join_room''"
abbreviation MessageTypeLeaveRoom :: string where "MessageTypeLeaveRoom \<equiv> ''leave_room''"
abbreviation MessageTypeOffer :: string where "MessageTypeOffer \<equiv> ''offer''"
abbreviation MessageTypeAnswer :: string where "MessageTypeAnswer \<equiv> ''answer''"
abbreviation MessageTypeIceCandidate :: string where "MessageTypeIceCandidate \<equiv> ''ice_candidate''"
abbreviation MessageTypeUserJoined :: string where "MessageTypeUserJoined \<equiv> ''user_joined''"
abbreviation MessageTypeUserLeft :: string where "MessageTypeUserLeft \<equiv> ''user_left''"
abbreviation MessageTypeRoomFull :: string where "MessageTypeRoomFull \<equiv> ''room_full''"
abbreviation MessageTypeError :: string where "MessageTypeError \<equiv> ''error''"

text \<open>
  The two uses of \<^verbatim>\<open>json.Unmarshal\<close> on client bytes are parameters of the engine:
  the decoder of a whole frame and the decoder of a \<^verbatim>\<open>JoinRoomData\<close> payload (its one
  field, the room id). \<open>None\<close> is a decoding error.
\<close>

record json =
  unmarshalMessage :: "string \<Rightarrow> Message option"
  unmarshalJoinRoomData :: "string \<Rightarrow> string option"

section \<open>Connections and the signaling service\<close>

text \<open>
  A websocket connection is the list of frames written to it so far; a write on a
  broken connection fails and writes nothing.
\<close>

record Conn =
  conn_written :: "Message list"
  conn_broken :: bool

record User =
  u_ID :: string
  u_SessionID :: string
  u_RoomID :: string
  u_Connection :: Conn
  u_CreatedAt :: time
  u_LastSeen :: time

text \<open>
  \<open>connMutex\<close> is the \<^verbatim>\<open>sync.RWMutex\<close> of the registry as one goroutine sees it while it
  runs alone: \<open>Locked\<close> when this goroutine holds the write lock. The lock is not reentrant.
\<close>

datatype mutex = Unlocked | Locked

record signaling =
  kv :: store
  connections :: "string \<rightharpoonup> User"
  connMutex :: mutex

text \<open>
  A method of the service runs on the service state. It returns a value and the new
  state (\<open>Done\<close>), or never returns because it waits for a lock that nobody will release
  (\<open>Blocked\<close>), or dereferences a user that is not there (\<open>Panic\<close>).

  A \<^verbatim>\<open>*model.User\<close> is represented by the key under which the registry holds the
  user; reading or writing through the pointer reads or writes the registry entry.
\<close>

datatype 'a exec = Done 'a | Blocked | Panic

type_synonym 'a prog = "signaling \<Rightarrow> ('a \<times> signaling) exec"

definition ret :: "'a \<Rightarrow> 'a prog" where
  "ret x s = Done (x, s)"

definition andThen :: "'a prog \<Rightarrow> ('a \<Rightarrow> 'b prog) \<Rightarrow> 'b prog" where
  "andThen m f s = (case m s of Done (x, s1) \<Rightarrow> f x s1 | Blocked \<Rightarrow> Blocked | Panic \<Rightarrow> Panic)"

text \<open>A call into the room or user service: it works on the shared store only.\<close>

definition kv_call :: "(store \<Rightarrow> 'a \<times> store) \<Rightarrow> 'a prog" where
  "kv_call f s = (case f (kv s) of (x, k) \<Rightarrow> Done (x, s\<lparr>kv := k\<rparr>))"

definition Lock :: "unit prog" where
  "Lock s = (if connMutex s = Locked then Blocked else Done ((), s\<lparr>connMutex := Locked\<rparr>))"

definition Unlock :: "unit prog" where
  "Unlock s = Done ((), s\<lparr>connMutex := Unlocked\<rparr>)"

text \<open>A read lock waits while the write lock is held; taking and releasing it changes nothing else.\<close>

definition RLock :: "unit prog" where
  "RLock s = (if connMutex s = Locked then Blocked else Done ((), s))"

definition RUnlock :: "unit prog" where
  "RUnlock s = Done ((), s)"

definition deref :: "string \<Rightarrow> User prog" where
  "deref p s = (case connections s p of None \<Rightarrow> Panic | Some user \<Rightarrow> Done (user, s))"

definition AddConnection :: "time \<Rightarrow> string \<Rightarrow> Conn \<Rightarrow> string \<Rightarrow> string prog" where
  "AddConnection now userID conn sessionID =
     andThen Lock (\<lambda>_.
     andThen (\<lambda>s. Done ((), s\<lparr>connections := (connections s)(userID \<mapsto>
                \<lparr>u_ID = userID, u_SessionID = sessionID, u_RoomID = [], u_Connection = conn,
                 u_CreatedAt = now, u_LastSeen = now\<rparr>)\<rparr>)) (\<lambda>_.
     andThen Unlock (\<lambda>_. ret userID)))"

definition GetConnection :: "string \<Rightarrow> User option prog" where
  "GetConnection userID =
     andThen RLock (\<lambda>_.
     andThen (\<lambda>s. Done (connections s userID, s)) (\<lambda>found.
     andThen RUnlock (\<lambda>_. ret found)))"

definition sendMessage :: "string \<Rightarrow> Message \<Rightarrow> error option prog" where
  "sendMessage p msg =
     andThen (deref p) (\<lambda>user s.
       if conn_broken (u_Connection user) then Done (Some WriteFailed, s)
       else Done (None, s\<lparr>connections := (connections s)(p \<mapsto>
              user\<lparr>u_Connection := (u_Connection user)
                \<lparr>conn_written := conn_written (u_Connection user) @ [msg]\<rparr>\<rparr>)\<rparr>))"

text \<open>
  The assignment to \<^verbatim>\<open>user.RoomID\<close> between \<^verbatim>\<open>s.connMutex.Lock()\<close> and
  \<^verbatim>\<open>s.connMutex.Unlock()\<close>, as \<^verbatim>\<open>handleJoinRoom\<close> and \<^verbatim>\<open>handleLeaveRoom\<close> do it.
\<close>

definition setRoomID :: "string \<Rightarrow> string \<Rightarrow> unit prog" where
  "setRoomID p roomID =
     andThen Lock (\<lambda>_.
     andThen (\<lambda>s. case connections s p of
                     None \<Rightarrow> Panic
                   | Some user \<Rightarrow> Done ((), s\<lparr>connections :=
                       (connections s)(p \<mapsto> user\<lparr>u_RoomID := roomID\<rparr>)\<rparr>)) (\<lambda>_.
     Unlock))"

definition sendError :: "time \<Rightarrow> string \<Rightarrow> int \<Rightarrow> string \<Rightarrow> error option prog" where
  "sendError now p code message =
     sendMessage p \<lparr>msg_Type = MessageTypeError, msg_RoomID = [], msg_UserID = [],
                    msg_TargetID = [], msg_Data = ErrorData code message, msg_Timestamp = now\<rparr>"

definition forwardToUser :: "string \<Rightarrow> Message \<Rightarrow> error option prog" where
  "forwardToUser targetUserID msg =
     andThen (GetConnection targetUserID) (\<lambda>found.
       case found of
         None \<Rightarrow> ret (Some (TargetNotConnected targetUserID))
       | Some _ \<Rightarrow> sendMessage targetUserID msg)"

primrec broadcastToUsers :: "string list \<Rightarrow> Message \<Rightarrow> unit prog" where
  "broadcastToUsers [] msg = ret ()"
| "broadcastToUsers (userID # rest) msg =
     andThen (GetConnection userID) (\<lambda>found.
       case found of
         None \<Rightarrow> broadcastToUsers rest msg
       | Some _ \<Rightarrow> andThen (sendMessage userID msg) (\<lambda>_. broadcastToUsers rest msg))"

primrec filterConnectedUsers :: "string list \<Rightarrow> string list prog" where
  "filterConnectedUsers [] = ret []"
| "filterConnectedUsers (userID # rest) =
     andThen (GetConnection userID) (\<lambda>found.
     andThen (filterConnectedUsers rest) (\<lambda>connectedUsers.
       ret (case found of None \<Rightarrow> connectedUsers | Some _ \<Rightarrow> userID # connectedUsers)))"

text \<open>The two loops of \<^verbatim>\<open>cleanupDisconnectedUsersFromRoom\<close>.\<close>

primrec disconnectedAmong :: "string list \<Rightarrow> string list prog" where
  "disconnectedAmong [] = ret []"
| "disconnectedAmong (userID # rest) =
     andThen (GetConnection userID) (\<lambda>found.
     andThen (disconnectedAmong rest) (\<lambda>disconnectedUsers.
       ret (case found of None \<Rightarrow> userID # disconnectedUsers | Some _ \<Rightarrow> disconnectedUsers)))"

primrec removeFromRoom :: "time \<Rightarrow> string \<Rightarrow> string list \<Rightarrow> unit prog" where
  "removeFromRoom now roomID [] = ret ()"
| "removeFromRoom now roomID (userID # rest) =
     andThen (kv_call (\<lambda>k. LeaveRoom now k userID roomID)) (\<lambda>_. removeFromRoom now roomID rest)"

definition cleanupDisconnectedUsersFromRoom :: "time \<Rightarrow> string \<Rightarrow> error option prog" where
  "cleanupDisconnectedUsersFromRoom now roomID =
     andThen (kv_call (\<lambda>k. GetRoomUsers k roomID)) (\<lambda>fetched.
       case fetched of
         Inl e \<Rightarrow> ret (Some e)
       | Inr roomUsers \<Rightarrow>
           andThen (disconnectedAmong roomUsers) (\<lambda>disconnectedUsers.
           andThen (removeFromRoom now roomID disconnectedUsers) (\<lambda>_. ret None)))"

text \<open>
  \<^verbatim>\<open>handleLeaveRoom\<close> never looks at its \<^verbatim>\<open>roomID\<close> argument: it leaves the room cached
  on the user. A failed lookup of the other members is logged and leaves the list nil.
\<close>

definition handleLeaveRoom :: "time \<Rightarrow> string \<Rightarrow> string \<Rightarrow> error option prog" where
  "handleLeaveRoom now p roomID =
     andThen (deref p) (\<lambda>user.
       if u_RoomID user = [] then ret None
       else
         andThen (kv_call (\<lambda>k. GetOtherUsersInRoom k (u_RoomID user) (u_ID user))) (\<lambda>fetched.
         let otherUsers = (case fetched of Inl _ \<Rightarrow> [] | Inr us \<Rightarrow> us) in
         andThen (kv_call (\<lambda>k. LeaveRoom now k (u_ID user) (u_RoomID user))) (\<lambda>err.
           case err of
             Some _ \<Rightarrow> sendError now p 500 ''Failed to leave room''
           | None \<Rightarrow>
               (let oldRoomID = u_RoomID user in
                andThen (setRoomID p []) (\<lambda>_.
                andThen (if otherUsers \<noteq> []
                         then broadcastToUsers otherUsers
                                \<lparr>msg_Type = MessageTypeUserLeft, msg_RoomID = oldRoomID,
                                 msg_UserID = u_ID user, msg_TargetID = [],
                                 msg_Data = UserLeftData (u_ID user) otherUsers,
                                 msg_Timestamp = now\<rparr>
                         else ret ()) (\<lambda>_.
                ret None))))))"


text \<open>
  The \<^verbatim>\<open>user_joined\<close> frame; the source builds it twice with the same fields, for the
  fan-out and for the confirmation.
\<close>

definition userJoinedMsg :: "time \<Rightarrow> string \<Rightarrow> string \<Rightarrow> string list \<Rightarrow> Message" where
  "userJoinedMsg now roomID userID activeUsers =
     \<lparr>msg_Type = MessageTypeUserJoined, msg_RoomID = roomID, msg_UserID = userID,
      msg_TargetID = [], msg_Data = UserJoinedData userID activeUsers, msg_Timestamp = now\<rparr>"

text \<open>
  Next to the Go \<^verbatim>\<open>error\<close> it returns, the model of \<^verbatim>\<open>handleJoinRoom\<close> reports which
  of its return statements was reached.
\<close>

datatype join_outcome = InvalidJoinData | StatusCheckFailed | RoomWasFull | JoinFailed | Joined

text \<open>
  The last part of \<^verbatim>\<open>handleJoinRoom\<close>, from the comment \<^verbatim>\<open>// Update user's room\<close> to
  the end: what the handler does once \<^verbatim>\<open>JoinRoom\<close> has succeeded. \<open>userID\<close> is
  \<^verbatim>\<open>user.ID\<close>. A failed lookup of the other members is logged and leaves the list nil.
\<close>

definition announceJoin :: "time \<Rightarrow> string \<Rightarrow> string \<Rightarrow> string \<Rightarrow> (join_outcome \<times> error option) prog" where
  "announceJoin now p userID roomID =
     andThen (setRoomID p roomID) (\<lambda>_.
     andThen (kv_call (\<lambda>k. GetOtherUsersInRoom k roomID userID)) (\<lambda>fetched.
     let otherUsers = (case fetched of Inl _ \<Rightarrow> [] | Inr us \<Rightarrow> us) in
     andThen (filterConnectedUsers otherUsers) (\<lambda>connectedUsers.
     let activeUsers = connectedUsers @ [userID] in
     andThen (if connectedUsers \<noteq> []
              then broadcastToUsers connectedUsers (userJoinedMsg now roomID userID activeUsers)
              else ret ()) (\<lambda>_.
     andThen (sendMessage p (userJoinedMsg now roomID userID activeUsers))
       (\<lambda>e. ret (Joined, e))))))"

text \<open>
  \<^verbatim>\<open>json.Unmarshal(msg.Data, &joinData)\<close>: only bytes that came from a client can
  decode; the nil payload is a decoding error.
\<close>

definition joinData :: "json \<Rightarrow> Message \<Rightarrow> string option" where
  "joinData js msg = (case msg_Data msg of Raw bytes \<Rightarrow> unmarshalJoinRoomData js bytes | _ \<Rightarrow> None)"

text \<open>The handler up to the call of \<^verbatim>\<open>JoinRoom\<close>, and then \<open>announceJoin\<close>.\<close>

definition handleJoinRoom :: "json \<Rightarrow> time \<Rightarrow> string \<Rightarrow> Message \<Rightarrow> (join_outcome \<times> error option) prog" where
  "handleJoinRoom js now p msg =
     andThen (deref p) (\<lambda>user.
       case joinData js msg of
         None \<Rightarrow>
           andThen (sendError now p 400 ''Invalid join room data'') (\<lambda>e. ret (InvalidJoinData, e))
       | Some roomID \<Rightarrow>
           andThen (if u_RoomID user \<noteq> [] \<and> u_RoomID user \<noteq> roomID
                    then andThen (handleLeaveRoom now p (u_RoomID user)) (\<lambda>_. ret ())
                    else ret ()) (\<lambda>_.
           andThen (cleanupDisconnectedUsersFromRoom now roomID) (\<lambda>_.
           andThen (kv_call (\<lambda>k. IsRoomFull k roomID)) (\<lambda>status.
             case status of
               Inl _ \<Rightarrow>
                 andThen (sendError now p 500 ''Failed to check room status'')
                   (\<lambda>e. ret (StatusCheckFailed, e))
             | Inr isFull \<Rightarrow>
                 andThen (kv_call (\<lambda>k. GetRoomUsers k roomID)) (\<lambda>_.
                 if isFull
                 then andThen (sendMessage p
                         \<lparr>msg_Type = MessageTypeRoomFull, msg_RoomID = roomID, msg_UserID = [],
                          msg_TargetID = [], msg_Data = NoData, msg_Timestamp = now\<rparr>)
                        (\<lambda>e. ret (RoomWasFull, e))
                 else
                   andThen (kv_call (\<lambda>k. JoinRoom now k (u_ID user) roomID)) (\<lambda>joined.
                     case joined of
                       Inl _ \<Rightarrow>
                         andThen (sendError now p 500 ''Failed to join room'')
                           (\<lambda>e. ret (JoinFailed, e))
                     | Inr _ \<Rightarrow> announceJoin now p (u_ID user) roomID))))))"

definition handleOffer :: "time \<Rightarrow> string \<Rightarrow> Message \<Rightarrow> error option prog" where
  "handleOffer now p msg =
     andThen (deref p) (\<lambda>user.
       if u_RoomID user = [] then sendError now p 400 ''User not in a room''
       else if msg_TargetID msg \<noteq> []
       then forwardToUser (msg_TargetID msg) (msg\<lparr>msg_UserID := u_ID user\<rparr>)
       else sendError now p 400 ''Target user ID required for offer'')"

definition handleAnswer :: "time \<Rightarrow> string \<Rightarrow> Message \<Rightarrow> error option prog" where
  "handleAnswer now p msg =
     andThen (deref p) (\<lambda>user.
       if u_RoomID user = [] then sendError now p 400 ''User not in a room''
       else if msg_TargetID msg \<noteq> []
       then forwardToUser (msg_TargetID msg) (msg\<lparr>msg_UserID := u_ID user\<rparr>)
       else sendError now p 400 ''Target user ID required for answer'')"

definition handleIceCandidate :: "time \<Rightarrow> string \<Rightarrow> Message \<Rightarrow> error option prog" where
  "handleIceCandidate now p msg =
     andThen (deref p) (\<lambda>user.
       if u_RoomID user = [] then sendError now p 400 ''User not in a room''
       else if msg_TargetID msg \<noteq> []
       then forwardToUser (msg_TargetID msg) (msg\<lparr>msg_UserID := u_ID user\<rparr>)
       else sendError now p 400 ''Target user ID required for ICE candidate'')"

definition HandleMessage :: "json \<Rightarrow> time \<Rightarrow> string \<Rightarrow> string \<Rightarrow> error option prog" where
  "HandleMessage js now userID messageData =
     (case unmarshalMessage js messageData of
        None \<Rightarrow> ret (Some UnmarshalFailed)
      | Some parsed \<Rightarrow>
          (let msg = parsed\<lparr>msg_UserID := userID, msg_Timestamp := now\<rparr> in
           andThen (GetConnection userID) (\<lambda>found.
             case found of
               None \<Rightarrow> ret (Some (ConnectionNotFound userID))
             | Some _ \<Rightarrow>
                 if msg_Type msg = MessageTypeJoinRoom
                 then andThen (handleJoinRoom js now userID msg) (\<lambda>(_, e). ret e)
                 else if msg_Type msg = MessageTypeLeaveRoom
                 then handleLeaveRoom now userID (msg_RoomID msg)
                 else if msg_Type msg = MessageTypeOffer then handleOffer now userID msg
                 else if msg_Type msg = MessageTypeAnswer then handleAnswer now userID msg
                 else if msg_Type msg = MessageTypeIceCandidate
                 then handleIceCandidate now userID msg
                 else ret (Some (UnknownMessageType (msg_Type msg))))))"

text \<open>
  \<^verbatim>\<open>RemoveConnection\<close> takes the write lock, releases it when it returns
  (\<^verbatim>\<open>defer\<close>), and reads the registry map directly.
\<close>

definition RemoveConnection :: "time \<Rightarrow> string \<Rightarrow> unit prog" where
  "RemoveConnection now userID =
     andThen Lock (\<lambda>_.
     andThen (\<lambda>s. Done (connections s userID, s)) (\<lambda>found.
       case found of
         None \<Rightarrow> Unlock
       | Some user \<Rightarrow>
           andThen (if u_RoomID user \<noteq> []
                    then andThen (handleLeaveRoom now userID (u_RoomID user)) (\<lambda>_. ret ())
                    else ret ()) (\<lambda>_.
           andThen (\<lambda>s. Done ((), s\<lparr>connections := (connections s)(userID := None)\<rparr>)) (\<lambda>_.
           Unlock))))"

section \<open>The read loop of the transport handler\<close>

text \<open>
  The loop of \<^verbatim>\<open>handleConnection\<close> over the frames the client sends, each with the
  instant at which it is read; the list ends where \<^verbatim>\<open>ReadMessage\<close> fails and the loop
  breaks. The error \<^verbatim>\<open>HandleMessage\<close> returns is logged, nothing else.
\<close>

primrec handleConnection :: "json \<Rightarrow> string \<Rightarrow> (time \<times> string) list \<Rightarrow> unit prog" where
  "handleConnection js userID [] = ret ()"
| "handleConnection js userID (frame # rest) =
     andThen (HandleMessage js (fst frame) userID (snd frame)) (\<lambda>_.
     andThen (kv_call (\<lambda>k. UpdateUserActivity (fst frame) k userID)) (\<lambda>_.
     handleConnection js userID rest))"

section \<open>Observations\<close>

text \<open>The frames written so far to the connection of a registered user.\<close>

definition sent :: "signaling \<Rightarrow> string \<Rightarrow> Message list" where
  "sent s v = (case connections s v of None \<Rightarrow> [] | Some u \<Rightarrow> conn_written (u_Connection u))"

text \<open>The state in which a run ends, and the frames a user has been sent when it ends.\<close>

definition final_state :: "('a \<times> signaling) exec \<Rightarrow> signaling option" where
  "final_state r = (case r of Done (_, s) \<Rightarrow> Some s | _ \<Rightarrow> None)"

definition sent_after :: "('a \<times> signaling) exec \<Rightarrow> string \<Rightarrow> Message list" where
  "sent_after r v = (case r of Done (_, s) \<Rightarrow> sent s v | _ \<Rightarrow> [])"

text \<open>What a run returns, when it returns.\<close>

definition result_of :: "('a \<times> signaling) exec \<Rightarrow> 'a option" where
  "result_of r = (case r of Done (x, _) \<Rightarrow> Some x | _ \<Rightarrow> None)"

text \<open>
  The spec's \<open>connected-others\<close> of a room: its members without the user, in order,
  restricted to those present in the local connection registry.
\<close>

definition connected_others :: "signaling \<Rightarrow> string \<Rightarrow> string \<Rightarrow> string list" where
  "connected_others s roomID self =
     filter (\<lambda>v. connections s v \<noteq> None) (filter (\<lambda>v. v \<noteq> self) (members (kv s) roomID))"

definition connected_others_after :: "('a \<times> signaling) exec \<Rightarrow> string \<Rightarrow> string \<Rightarrow> string list" where
  "connected_others_after r roomID self =
     (case r of Done (_, s) \<Rightarrow> connected_others s roomID self | _ \<Rightarrow> [])"


section \<open>Sequences of room operations\<close>

text \<open>
  The operations through which room records are produced and persisted, with their
  arguments, and the events of the environment around them (user records written or
  deleted, the fault script of the store). A run applies a list of them in order.
\<close>

datatype room_op =
    Op_AddUserToRoom time string string
  | Op_RemoveUserFromRoom time string string
  | Op_JoinRoom time string string
  | Op_LeaveRoom time string string
  | Op_SaveUser UserSession
  | Op_DeleteUser string
  | Op_Faults "bool list"

fun apply_op :: "store \<Rightarrow> room_op \<Rightarrow> store" where
  "apply_op k (Op_AddUserToRoom now roomID userID) = snd (AddUserToRoom now k roomID userID)"
| "apply_op k (Op_RemoveUserFromRoom now roomID userID) = snd (RemoveUserFromRoom now k roomID userID)"
| "apply_op k (Op_JoinRoom now userID roomID) = snd (JoinRoom now k userID roomID)"
| "apply_op k (Op_LeaveRoom now userID roomID) = snd (LeaveRoom now k userID roomID)"
| "apply_op k (Op_SaveUser user) = snd (SaveUser k user)"
| "apply_op k (Op_DeleteUser userID) = snd (DeleteUser k userID)"
| "apply_op k (Op_Faults fs) = k\<lparr>faults := fs\<rparr>"

definition run_ops :: "store \<Rightarrow> room_op list \<Rightarrow> store" where
  "run_ops k ops = foldl apply_op k ops"

section \<open>Predicates used in the proofs\<close>

definition room_ok :: "Room \<Rightarrow> bool" where
  "room_ok r \<longleftrightarrow> distinct (room_Users r) \<and> length (room_Users r) \<le> MaxRoomUsers"

definition rooms_ok :: "store \<Rightarrow> bool" where
  "rooms_ok k \<longleftrightarrow> (\<forall>rid r. rooms k rid = Some r \<longrightarrow> room_ok r)"

text \<open>
  A room record as the room operations leave it under the key \<open>rid\<close>: it carries that id,
  and its member list has no duplicates and is not empty. In a well-formed store every
  room record and every session record is stored under its own id.
\<close>

definition room_wf :: "string \<Rightarrow> Room \<Rightarrow> bool" where
  "room_wf rid r \<longleftrightarrow> room_ID r = rid \<and> distinct (room_Users r) \<and> room_Users r \<noteq> []"

definition store_wf :: "store \<Rightarrow> bool" where
  "store_wf k \<longleftrightarrow> (\<forall>rid r. rooms k rid = Some r \<longrightarrow> room_wf rid r) \<and>
                  (\<forall>uid u. users k uid = Some u \<longrightarrow> us_ID u = uid)"

section \<open>Concrete stores and states\<close>

definition empty_store :: store where
  "empty_store = \<lparr>rooms = Map.empty, users = Map.empty, faults = []\<rparr>"

definition full_room :: Room where
  "full_room = \<lparr>room_ID = ''R'',
     room_Users = [''u0'', ''u1'', ''u2'', ''u3'', ''u4'', ''u5'', ''u6'', ''u7'', ''u8'', ''u9''],
     room_CreatedAt = 0, room_UpdatedAt = 0\<rparr>"

definition full_store :: store where
  "full_store = \<lparr>rooms = [''R'' \<mapsto> full_room], users = Map.empty, faults = []\<rparr>"

definition session :: "string \<Rightarrow> string \<Rightarrow> UserSession" where
  "session userID roomID =
     \<lparr>us_ID = userID, us_SessionID = ''cookie'', us_RoomID = roomID, us_CreatedAt = 0, us_LastSeen = 0\<rparr>"

definition two_joins :: "room_op list" where
  "two_joins = [Op_SaveUser (session ''U1'' []), Op_JoinRoom 1 ''U1'' ''R'',
                Op_AddUserToRoom 2 ''R'' ''U2'', Op_JoinRoom 3 ''U1'' ''R'']"

definition pair_room :: Room where
  "pair_room = \<lparr>room_ID = ''R'', room_Users = [''U1'', ''U2''], room_CreatedAt = 1, room_UpdatedAt = 2\<rparr>"

definition pair_store :: store where
  "pair_store = \<lparr>rooms = [''R'' \<mapsto> pair_room],
                  users = [''U1'' \<mapsto> session ''U1'' ''R'', ''U2'' \<mapsto> session ''U2'' ''R''],
                  faults = []\<rparr>"

definition pair_ops :: "room_op list" where
  "pair_ops = [Op_SaveUser (session ''U1'' []), Op_SaveUser (session ''U2'' []),
               Op_JoinRoom 1 ''U1'' ''R'', Op_JoinRoom 2 ''U2'' ''R'']"

section \<open>Predicates on runs of the service\<close>

text \<open>
  \<open>grows P s s'\<close>: from \<open>s\<close> to \<open>s'\<close> the registry keeps its users, each with its id and
  its connection, every connection has only been appended to, every appended frame
  satisfies \<open>P\<close> (of the registry key and the frame), the lock is as it was, and a store
  that had no failure scripted still has none.
\<close>

definition grows :: "(string \<Rightarrow> Message \<Rightarrow> bool) \<Rightarrow> signaling \<Rightarrow> signaling \<Rightarrow> bool" where
  "grows P s s' \<longleftrightarrow>
     connMutex s' = connMutex s \<and>
     (faults (kv s) = [] \<longrightarrow> faults (kv s') = []) \<and>
     (\<forall>v. case connections s v of
            None \<Rightarrow> connections s' v = None
          | Some u \<Rightarrow> (\<exists>u' new. connections s' v = Some u' \<and> u_ID u' = u_ID u \<and>
                         conn_broken (u_Connection u') = conn_broken (u_Connection u) \<and>
                         conn_written (u_Connection u') = conn_written (u_Connection u) @ new \<and>
                         (\<forall>m \<in> set new. P v m)))"

definition preserves :: "(string \<Rightarrow> Message \<Rightarrow> bool) \<Rightarrow> 'a prog \<Rightarrow> bool" where
  "preserves P m \<longleftrightarrow> (\<forall>s r s'. m s = Done (r, s') \<longrightarrow> grows P s s')"

text \<open>Of a frame written to a user: it is not of kind \<^verbatim>\<open>user_joined\<close>.\<close>

abbreviation (input) not_joined :: "string \<Rightarrow> Message \<Rightarrow> bool" where
  "not_joined \<equiv> \<lambda>v m. msg_Type m \<noteq> MessageTypeUserJoined"

section \<open>Concrete states of the service\<close>

definition conn0 :: Conn where
  "conn0 = \<lparr>conn_written = [], conn_broken = False\<rparr>"

definition member :: "string \<Rightarrow> string \<Rightarrow> User" where
  "member userID roomID =
     \<lparr>u_ID = userID, u_SessionID = ''cookie'', u_RoomID = roomID, u_Connection = conn0,
      u_CreatedAt = 0, u_LastSeen = 0\<rparr>"

text \<open>\<open>U1\<close> alone in room \<open>R\<close>; \<open>U1\<close> and \<open>U2\<close> both in \<open>R\<close>; \<open>U1\<close> in \<open>R\<close> and \<open>U2\<close> connected outside any room.\<close>

definition alone_state :: signaling where
  "alone_state =
     \<lparr>kv = \<lparr>rooms = [''R'' \<mapsto> \<lparr>room_ID = ''R'', room_Users = [''U1''],
                                  room_CreatedAt = 1, room_UpdatedAt = 1\<rparr>],
            users = [''U1'' \<mapsto> session ''U1'' ''R''], faults = []\<rparr>,
      connections = [''U1'' \<mapsto> member ''U1'' ''R''], connMutex = Unlocked\<rparr>"

definition pair_state :: signaling where
  "pair_state =
     \<lparr>kv = pair_store,
      connections = [''U1'' \<mapsto> member ''U1'' ''R'', ''U2'' \<mapsto> member ''U2'' ''R''],
      connMutex = Unlocked\<rparr>"

definition lobby_state :: signaling where
  "lobby_state =
     \<lparr>kv = \<lparr>rooms = [''R'' \<mapsto> \<lparr>room_ID = ''R'', room_Users = [''U1''],
                                  room_CreatedAt = 1, room_UpdatedAt = 1\<rparr>],
            users = [''U1'' \<mapsto> session ''U1'' ''R'', ''U2'' \<mapsto> session ''U2'' []], faults = []\<rparr>,
      connections = [''U1'' \<mapsto> member ''U1'' ''R'', ''U2'' \<mapsto> member ''U2'' []],
      connMutex = Unlocked\<rparr>"

text \<open>
  The same state with a store whose tenth call fails: in the join of \<open>U2\<close> that call is
  the lookup of the other members after the join.
\<close>

definition faulty_lobby_state :: signaling where
  "faulty_lobby_state =
     lobby_state\<lparr>kv := (kv lobby_state)\<lparr>faults :=
       [False, False, False, False, False, False, False, False, False, True]\<rparr>\<rparr>"

text \<open>A decoder given by a table of the byte strings used below.\<close>

definition frame :: "string \<Rightarrow> string \<Rightarrow> payload \<Rightarrow> Message" where
  "frame kind target body =
     \<lparr>msg_Type = kind, msg_RoomID = [], msg_UserID = [], msg_TargetID = target,
      msg_Data = body, msg_Timestamp = 0\<rparr>"

definition table_json :: json where
  "table_json =
     \<lparr>unmarshalMessage = map_of
        [(''offer to ghost'', frame MessageTypeOffer ''ghost'' (Raw ''sdp x'')),
         (''offer to U2'', frame MessageTypeOffer ''U2'' (Raw ''sdp x'')),
         (''offer to U1'', frame MessageTypeOffer ''U1'' (Raw ''sdp y'')),
         (''join R'', frame MessageTypeJoinRoom [] (Raw ''room R'')),
         (''dance'', frame ''dance'' [] NoData)],
      unmarshalJoinRoomData = map_of [(''room R'', ''R'')]\<rparr>"

section \<open>The room records in the store\<close>

subsection \<open>Store operations: what each call returns and leaves behind\<close>

lemma client_callD:
  "client_call k = (f, k1) \<Longrightarrow> rooms k1 = rooms k \<and> users k1 = users k \<and>
     (faults k = [] \<longrightarrow> \<not> f \<and> k1 = k)"
  by (auto simp: client_call_def split: list.splits)

lemma client_call_nofault [simp]: "faults k = [] \<Longrightarrow> client_call k = (False, k)"
  by (simp add: client_call_def)

lemma GetRoom_nofault [simp]: "faults k = [] \<Longrightarrow> GetRoom k rid = (Inr (rooms k rid), k)"
  by (simp add: GetRoom_def)

lemma SaveRoom_nofault [simp]:
  "faults k = [] \<Longrightarrow> SaveRoom k r = (None, k\<lparr>rooms := (rooms k)(room_ID r \<mapsto> r)\<rparr>)"
  by (simp add: SaveRoom_def)

lemma DeleteRoom_nofault [simp]:
  "faults k = [] \<Longrightarrow> DeleteRoom k rid = (None, k\<lparr>rooms := (rooms k)(rid := None)\<rparr>)"
  by (simp add: DeleteRoom_def)

lemma GetUser_nofault [simp]: "faults k = [] \<Longrightarrow> GetUser k uid = (Inr (users k uid), k)"
  by (simp add: GetUser_def)

lemma SaveUser_nofault [simp]:
  "faults k = [] \<Longrightarrow> SaveUser k u = (None, k\<lparr>users := (users k)(us_ID u \<mapsto> u)\<rparr>)"
  by (simp add: SaveUser_def)

lemma GetRoomD:
  "GetRoom k rid = (x, k1) \<Longrightarrow>
     rooms k1 = rooms k \<and> users k1 = users k \<and> (x = Inl KVError \<or> x = Inr (rooms k rid))"
  by (auto simp: GetRoom_def split: prod.splits bool.splits dest: client_callD)

lemma SaveRoomD:
  "SaveRoom k r = (x, k1) \<Longrightarrow> users k1 = users k \<and>
     (x = Some KVError \<and> rooms k1 = rooms k \<or> x = None \<and> rooms k1 = (rooms k)(room_ID r \<mapsto> r))"
  by (auto simp: SaveRoom_def split: prod.splits bool.splits dest: client_callD)

lemma DeleteRoomD:
  "DeleteRoom k rid = (x, k1) \<Longrightarrow> users k1 = users k \<and>
     (x = Some KVError \<and> rooms k1 = rooms k \<or> x = None \<and> rooms k1 = (rooms k)(rid := None))"
  by (auto simp: DeleteRoom_def split: prod.splits bool.splits dest: client_callD)

lemma GetUserD:
  "GetUser k uid = (x, k1) \<Longrightarrow>
     rooms k1 = rooms k \<and> users k1 = users k \<and> (x = Inl KVError \<or> x = Inr (users k uid))"
  by (auto simp: GetUser_def split: prod.splits bool.splits dest: client_callD)

lemma SaveUserD:
  "SaveUser k u = (x, k1) \<Longrightarrow> rooms k1 = rooms k \<and>
     (x = Some KVError \<and> users k1 = users k \<or> x = None \<and> users k1 = (users k)(us_ID u \<mapsto> u))"
  by (auto simp: SaveUser_def split: prod.splits bool.splits dest: client_callD)

lemma UpdateUserRoomD:
  "UpdateUserRoom now k uid rid = (x, k1) \<Longrightarrow> rooms k1 = rooms k \<and>
     (x = None \<or> x = Some KVError \<or> x = Some (UserNotFound uid))"
  by (auto simp: UpdateUserRoom_def split: prod.splits sum.splits option.splits
           dest!: GetUserD SaveUserD)

lemma AddUser_CanJoin: "CanJoin r \<Longrightarrow> fst (AddUser now r uid)"
  by (simp add: AddUser_def)

lemma AddUserToRoomD:
  "AddUserToRoom now k rid uid = (x, k1) \<Longrightarrow>
     (x = None \<or> x = Some KVError \<or>
      x = Some RoomFullOrUserExists \<and> (\<exists>r. rooms k rid = Some r \<and> \<not> CanJoin r))"
  apply (simp add: AddUserToRoom_def split: prod.splits sum.splits option.splits bool.splits)
  apply (auto dest!: GetRoomD SaveRoomD simp: AddUser_def CanJoin_def MaxRoomUsers_def split: if_splits)
  done


text \<open>
  Claim C2, as amended. \<^verbatim>\<open>JoinRoom\<close> fails with the room-full error exactly when the
  room record it fetches exists and already has \<open>MaxRoomUsers\<close> members or more; whether
  the user is already a member plays no part. The repository's own error for a full
  room is never what \<^verbatim>\<open>JoinRoom\<close> returns. As the claim is written (a member of a full
  room is not refused) it fails: see the counterexample below.
\<close>

theorem JoinRoom_room_full_iff:
  "(fst (JoinRoom now k userID roomID) = Inl RoomIsFull) =
     (\<exists>r. fst (GetRoom k roomID) = Inr (Some r) \<and> MaxRoomUsers \<le> length (room_Users r))
   \<and> fst (JoinRoom now k userID roomID) \<noteq> Inl RoomFullOrUserExists"
proof (cases "GetRoom k roomID")
  case (Pair x k1)
  note g = GetRoomD [OF Pair]
  show ?thesis
  proof (cases "x = Inl KVError")
    case True
    with Pair show ?thesis by (simp add: JoinRoom_def)
  next
    case False
    with g have x: "x = Inr (rooms k roomID)" by simp
    show ?thesis
    proof (cases "case rooms k roomID of None \<Rightarrow> False | Some r \<Rightarrow> \<not> CanJoin r")
      case True
      with Pair x show ?thesis
        by (auto simp: JoinRoom_def CanJoin_def split: option.splits)
    next
      case nofull: False
      obtain e2 k2 where a: "AddUserToRoom now k1 roomID userID = (e2, k2)"
        by (cases "AddUserToRoom now k1 roomID userID")
      obtain e3 k3 where u: "UpdateUserRoom now k2 userID roomID = (e3, k3)"
        by (cases "UpdateUserRoom now k2 userID roomID")
      obtain x4 k4 where g4: "GetRoom k3 roomID = (x4, k4)"
        by (cases "GetRoom k3 roomID")
      from AddUserToRoomD [OF a] g nofull
      have e2: "e2 = None \<or> e2 = Some KVError" by (auto split: option.splits)
      from UpdateUserRoomD [OF u]
      have e3: "e3 = None \<or> e3 = Some KVError \<or> e3 = Some (UserNotFound userID)" by simp
      from GetRoomD [OF g4] have x4: "x4 = Inl KVError \<or> (\<exists>y. x4 = Inr y)" by auto
      have "fst (JoinRoom now k userID roomID) \<noteq> Inl RoomIsFull \<and>
            fst (JoinRoom now k userID roomID) \<noteq> Inl RoomFullOrUserExists"
        using Pair x nofull a u g4 e2 e3 x4
        by (auto simp: JoinRoom_def split: option.splits)
      moreover from Pair x nofull
      have "\<not> (\<exists>r. fst (GetRoom k roomID) = Inr (Some r) \<and> MaxRoomUsers \<le> length (room_Users r))"
        by (auto simp: CanJoin_def split: option.splits)
      ultimately show ?thesis by blast
    qed
  qed
qed


text \<open>
  Counterexample to C2 as written: \<open>u0\<close> is a member of the full room \<open>R\<close>, and its join
  fails with room-full.
\<close>

theorem JoinRoom_full_member_counterexample:
  "''u0'' \<in> set (members full_store ''R'') \<and>
   length (members full_store ''R'') = MaxRoomUsers \<and>
   fst (JoinRoom 1 full_store ''u0'' ''R'') = Inl RoomIsFull"
  by (simp add: JoinRoom_def members_def full_store_def full_room_def CanJoin_def MaxRoomUsers_def)

theorem JoinRoom_room_full_iff_witness:
  "fst (JoinRoom 1 full_store ''u9'' ''R'') = Inl RoomIsFull \<and>
   fst (JoinRoom 1 (full_store\<lparr>rooms := Map.empty\<rparr>) ''u9'' ''R'') \<noteq> Inl RoomIsFull"
  using JoinRoom_room_full_iff [of 1 full_store "''u9''" "''R''"]
        JoinRoom_room_full_iff [of 1 "full_store\<lparr>rooms := Map.empty\<rparr>" "''u9''" "''R''"]
  by (simp add: full_store_def full_room_def MaxRoomUsers_def)

subsection \<open>Invariant\<close>



lemma room_ok_AddUser: "room_ok r \<Longrightarrow> room_ok (snd (AddUser now r uid))"
  by (auto simp: room_ok_def AddUser_def CanJoin_def)

lemma room_ok_RemoveUser: "room_ok r \<Longrightarrow> room_ok (snd (RemoveUser now r uid))"
  by (auto simp: room_ok_def RemoveUser_def length_remove1)

lemma rooms_ok_same: "rooms k1 = rooms k \<Longrightarrow> rooms_ok k \<Longrightarrow> rooms_ok k1"
  by (simp add: rooms_ok_def)

lemma rooms_ok_upd: "rooms k1 = (rooms k)(rid \<mapsto> r) \<Longrightarrow> room_ok r \<Longrightarrow> rooms_ok k \<Longrightarrow> rooms_ok k1"
  by (simp add: rooms_ok_def)

lemma rooms_ok_del: "rooms k1 = (rooms k)(rid := None) \<Longrightarrow> rooms_ok k \<Longrightarrow> rooms_ok k1"
  by (simp add: rooms_ok_def)

lemma rooms_ok_SaveRoom: "rooms_ok k \<Longrightarrow> room_ok r \<Longrightarrow> rooms_ok (snd (SaveRoom k r))"
  by (cases "SaveRoom k r") (auto dest!: SaveRoomD intro: rooms_ok_same rooms_ok_upd)

lemma rooms_ok_DeleteRoom: "rooms_ok k \<Longrightarrow> rooms_ok (snd (DeleteRoom k rid))"
  by (cases "DeleteRoom k rid") (auto dest!: DeleteRoomD intro: rooms_ok_same rooms_ok_del)

lemma rooms_ok_GetRoom: "rooms_ok k \<Longrightarrow> rooms_ok (snd (GetRoom k rid))"
  by (cases "GetRoom k rid") (auto dest!: GetRoomD intro: rooms_ok_same)

lemma rooms_ok_UpdateUserRoom: "rooms_ok k \<Longrightarrow> rooms_ok (snd (UpdateUserRoom now k uid rid))"
  by (cases "UpdateUserRoom now k uid rid") (auto dest!: UpdateUserRoomD intro: rooms_ok_same)

lemma rooms_ok_AddUserToRoom:
  assumes "rooms_ok k" shows "rooms_ok (snd (AddUserToRoom now k rid uid))"
proof (cases "GetRoom k rid")
  case (Pair x k1)
  from rooms_ok_GetRoom [OF assms, of rid] Pair have k1: "rooms_ok k1" by simp
  from GetRoomD [OF Pair] have x: "x = Inl KVError \<or> x = Inr (rooms k rid)" by simp
  have fresh: "room_ok \<lparr>room_ID = rid, room_Users = [], room_CreatedAt = now, room_UpdatedAt = now\<rparr>"
    by (simp add: room_ok_def)
  have stored: "room_ok r" if "rooms k rid = Some r" for r
    using assms that by (auto simp: rooms_ok_def)
  show ?thesis
    using Pair x k1 rooms_ok_SaveRoom [OF k1] room_ok_AddUser fresh stored
    by (auto simp: AddUserToRoom_def Let_def split: prod.splits option.splits bool.splits)
       (metis snd_conv)+
qed


lemma rooms_ok_RemoveUserFromRoom:
  assumes "rooms_ok k" shows "rooms_ok (snd (RemoveUserFromRoom now k rid uid))"
proof (cases "GetRoom k rid")
  case (Pair x k1)
  from rooms_ok_GetRoom [OF assms, of rid] Pair have k1: "rooms_ok k1" by simp
  from GetRoomD [OF Pair] have x: "x = Inl KVError \<or> x = Inr (rooms k rid)" by simp
  have stored: "room_ok (snd (RemoveUser now r uid))" if "rooms k rid = Some r" for r
    using assms that by (auto simp: rooms_ok_def intro: room_ok_RemoveUser)
  show ?thesis
    using Pair x k1 rooms_ok_SaveRoom [OF k1] rooms_ok_DeleteRoom [OF k1] stored
    by (auto simp: RemoveUserFromRoom_def Let_def split: option.splits)
qed

lemma rooms_ok_JoinRoom:
  assumes "rooms_ok k" shows "rooms_ok (snd (JoinRoom now k uid rid))"
proof -
  obtain x k1 where g: "GetRoom k rid = (x, k1)" by (cases "GetRoom k rid")
  obtain e2 k2 where a: "AddUserToRoom now k1 rid uid = (e2, k2)"
    by (cases "AddUserToRoom now k1 rid uid")
  obtain e3 k3 where u: "UpdateUserRoom now k2 uid rid = (e3, k3)"
    by (cases "UpdateUserRoom now k2 uid rid")
  from rooms_ok_GetRoom [OF assms, of rid] g have k1: "rooms_ok k1" by simp
  from rooms_ok_AddUserToRoom [OF k1, of now rid uid] a have k2: "rooms_ok k2" by simp
  from rooms_ok_UpdateUserRoom [OF k2, of now uid rid] u have k3: "rooms_ok k3" by simp
  from rooms_ok_GetRoom [OF k3, of rid] have k4: "rooms_ok (snd (GetRoom k3 rid))" .
  show ?thesis
    using g a u k1 k2 k3 k4
    by (simp add: JoinRoom_def split: sum.splits option.splits)
qed

lemma rooms_ok_LeaveRoom:
  assumes "rooms_ok k" shows "rooms_ok (snd (LeaveRoom now k uid rid))"
proof -
  obtain e1 k1 where r: "RemoveUserFromRoom now k rid uid = (e1, k1)"
    by (cases "RemoveUserFromRoom now k rid uid")
  from rooms_ok_RemoveUserFromRoom [OF assms, of now rid uid] r have k1: "rooms_ok k1" by simp
  from rooms_ok_UpdateUserRoom [OF k1, of now uid "[]"] r k1 show ?thesis
    by (simp add: LeaveRoom_def split: option.splits)
qed





lemma DeleteUserD: "DeleteUser k uid = (x, k1) \<Longrightarrow> rooms k1 = rooms k"
  by (auto simp: DeleteUser_def split: prod.splits bool.splits dest: client_callD)

lemma rooms_ok_apply_op: "rooms_ok k \<Longrightarrow> rooms_ok (apply_op k op)"
proof (cases op)
  case (Op_SaveUser u)
  assume "rooms_ok k"
  then show ?thesis using Op_SaveUser
    by (cases "SaveUser k u") (auto dest!: SaveUserD intro: rooms_ok_same)
next
  case (Op_DeleteUser uid)
  assume "rooms_ok k"
  then show ?thesis using Op_DeleteUser
    by (cases "DeleteUser k uid") (auto dest!: DeleteUserD intro: rooms_ok_same)
next
  case (Op_Faults fs)
  assume "rooms_ok k"
  then show ?thesis using Op_Faults by (simp add: rooms_ok_def)
qed (simp_all add: rooms_ok_AddUserToRoom rooms_ok_RemoveUserFromRoom rooms_ok_JoinRoom
       rooms_ok_LeaveRoom)

lemma rooms_ok_foldl: "rooms_ok k \<Longrightarrow> rooms_ok (foldl apply_op k ops)"
  by (induction ops arbitrary: k) (simp_all add: rooms_ok_apply_op)

text \<open>
  Claim C6. Start from a store without room records and apply any sequence of
  \<^verbatim>\<open>AddUserToRoom\<close>, \<^verbatim>\<open>RemoveUserFromRoom\<close>, \<^verbatim>\<open>JoinRoom\<close> and \<^verbatim>\<open>LeaveRoom\<close> calls, with
  any arguments, any user records and any pattern of store failures in between: every
  room record in the store has a member list without duplicates and of length at most
  \<open>MaxRoomUsers = 10\<close>.
\<close>

theorem room_records_distinct_bounded:
  assumes "rooms k = Map.empty" and "rooms (run_ops k ops) roomID = Some r"
  shows "distinct (room_Users r) \<and> length (room_Users r) \<le> MaxRoomUsers"
proof -
  from assms(1) have "rooms_ok k" by (simp add: rooms_ok_def)
  then have "rooms_ok (run_ops k ops)" unfolding run_ops_def by (rule rooms_ok_foldl)
  with assms(2) show ?thesis by (auto simp: rooms_ok_def room_ok_def)
qed


lemma two_joins_run: "rooms (run_ops empty_store two_joins) ''R'' = Some pair_room"
  by (simp add: run_ops_def two_joins_def empty_store_def session_def pair_room_def JoinRoom_def
        AddUserToRoom_def UpdateUserRoom_def AddUser_def CanJoin_def MaxRoomUsers_def)

theorem room_records_distinct_bounded_witness:
  "rooms empty_store = Map.empty \<and>
   rooms (run_ops empty_store two_joins) ''R'' = Some pair_room \<and>
   distinct (room_Users pair_room) \<and> length (room_Users pair_room) \<le> MaxRoomUsers"
  using room_records_distinct_bounded [of empty_store two_joins "''R''" pair_room] two_joins_run
  by (simp add: empty_store_def)

subsection \<open>Leave\<close>

lemma UpdateUserRoom_nofault:
  "faults k = [] \<Longrightarrow> UpdateUserRoom now k uid rid =
     (case users k uid of
        None \<Rightarrow> (Some (UserNotFound uid), k)
      | Some u \<Rightarrow> (None, k\<lparr>users := (users k)(us_ID u \<mapsto> u\<lparr>us_RoomID := rid, us_LastSeen := now\<rparr>)\<rparr>))"
  by (simp add: UpdateUserRoom_def split: option.splits)

lemma RemoveUserFromRoom_nofault:
  "faults k = [] \<Longrightarrow> RemoveUserFromRoom now k rid uid =
     (case rooms k rid of
        None \<Rightarrow> (None, k)
      | Some r \<Rightarrow>
          if remove1 uid (room_Users r) = [] then (None, k\<lparr>rooms := (rooms k)(rid := None)\<rparr>)
          else (None, k\<lparr>rooms := (rooms k)(room_ID r \<mapsto> snd (RemoveUser now r uid))\<rparr>))"
  by (auto simp: RemoveUserFromRoom_def RemoveUser_def IsEmpty_def Let_def remove1_idem split: option.splits)

text \<open>
  The leave of a user with a session record, on a room record that is stored under its
  own id, without duplicates and not empty.
\<close>

lemma LeaveRoom_known_user:
  assumes nofault: "faults k = []"
    and user: "users k userID = Some u" "us_ID u = userID"
    and wf: "\<And>r. rooms k roomID = Some r \<Longrightarrow> room_ID r = roomID \<and> distinct (room_Users r) \<and> room_Users r \<noteq> []"
  shows "\<exists>k'. LeaveRoom now k userID roomID = (None, k') \<and>
           members k' roomID = remove1 userID (members k roomID) \<and>
           userID \<notin> set (members k' roomID) \<and>
           (members k' roomID = [] \<longrightarrow> rooms k' roomID = None) \<and>
           (\<forall>other. other \<noteq> roomID \<longrightarrow> rooms k' other = rooms k other) \<and>
           users k' = (users k)(userID \<mapsto> u\<lparr>us_RoomID := [], us_LastSeen := now\<rparr>) \<and>
           (userID \<notin> set (members k roomID) \<longrightarrow> rooms k' = rooms k)"
proof (cases "rooms k roomID")
  case None
  with nofault user show ?thesis
    by (simp add: LeaveRoom_def RemoveUserFromRoom_nofault UpdateUserRoom_nofault members_def)
next
  case (Some r)
  from wf [OF Some] have r: "room_ID r = roomID" "distinct (room_Users r)" "room_Users r \<noteq> []"
    by simp_all
  show ?thesis
  proof (cases "remove1 userID (room_Users r) = []")
    case True
    with r have "userID \<in> set (room_Users r)"
      by (metis remove1_idem)
    with nofault user Some r True show ?thesis
      by (auto simp: LeaveRoom_def RemoveUserFromRoom_nofault UpdateUserRoom_nofault members_def)
  next
    case False
    with nofault user Some r show ?thesis
      by (auto simp: LeaveRoom_def RemoveUserFromRoom_nofault UpdateUserRoom_nofault members_def
            RemoveUser_def remove1_idem fun_upd_idem)
  qed
qed

text \<open>The same leave for a user id without a session record.\<close>

lemma LeaveRoom_unknown_user:
  assumes nofault: "faults k = []"
    and user: "users k userID = None"
    and wf: "\<And>r. rooms k roomID = Some r \<Longrightarrow> room_ID r = roomID \<and> distinct (room_Users r) \<and> room_Users r \<noteq> []"
  shows "\<exists>k'. LeaveRoom now k userID roomID = (Some (UserNotFound userID), k') \<and>
           members k' roomID = remove1 userID (members k roomID) \<and>
           userID \<notin> set (members k' roomID) \<and>
           (members k' roomID = [] \<longrightarrow> rooms k' roomID = None) \<and>
           (\<forall>other. other \<noteq> roomID \<longrightarrow> rooms k' other = rooms k other) \<and>
           users k' = users k \<and>
           (userID \<notin> set (members k roomID) \<longrightarrow> rooms k' = rooms k)"
proof (cases "rooms k roomID")
  case None
  with nofault user show ?thesis
    by (simp add: LeaveRoom_def RemoveUserFromRoom_nofault UpdateUserRoom_nofault members_def)
next
  case (Some r)
  from wf [OF Some] have r: "room_ID r = roomID" "distinct (room_Users r)" "room_Users r \<noteq> []"
    by simp_all
  show ?thesis
  proof (cases "remove1 userID (room_Users r) = []")
    case True
    with r have "userID \<in> set (room_Users r)"
      by (metis remove1_idem)
    with nofault user Some r True show ?thesis
      by (auto simp: LeaveRoom_def RemoveUserFromRoom_nofault UpdateUserRoom_nofault members_def)
  next
    case False
    with nofault user Some r show ?thesis
      by (auto simp: LeaveRoom_def RemoveUserFromRoom_nofault UpdateUserRoom_nofault members_def
            RemoveUser_def remove1_idem fun_upd_idem)
  qed
qed

subsection \<open>Every record is stored under its own id\<close>

lemma room_wf_AddUser:
  "room_wf rid r \<or> (room_ID r = rid \<and> room_Users r = []) \<Longrightarrow> AddUser now r uid = (True, r') \<Longrightarrow>
   room_wf rid r'"
  by (auto simp: room_wf_def AddUser_def split: if_splits)

lemma store_wf_rooms_same:
  "store_wf k \<Longrightarrow> rooms k1 = rooms k \<Longrightarrow> users k1 = users k \<Longrightarrow> store_wf k1"
  by (simp add: store_wf_def)

lemma store_wf_SaveRoom:
  "store_wf k \<Longrightarrow> room_wf (room_ID r) r \<Longrightarrow> store_wf (snd (SaveRoom k r))"
  by (cases "SaveRoom k r") (auto dest!: SaveRoomD simp: store_wf_def split: if_splits)

lemma store_wf_DeleteRoom: "store_wf k \<Longrightarrow> store_wf (snd (DeleteRoom k rid))"
  by (cases "DeleteRoom k rid") (auto dest!: DeleteRoomD simp: store_wf_def split: if_splits)

lemma store_wf_GetRoom: "store_wf k \<Longrightarrow> store_wf (snd (GetRoom k rid))"
  by (cases "GetRoom k rid") (auto dest!: GetRoomD simp: store_wf_def)

lemma store_wf_SaveUser: "store_wf k \<Longrightarrow> store_wf (snd (SaveUser k u))"
  by (cases "SaveUser k u") (auto dest!: SaveUserD simp: store_wf_def split: if_splits)

lemma store_wf_DeleteUser: "store_wf k \<Longrightarrow> store_wf (snd (DeleteUser k uid))"
  by (auto simp: DeleteUser_def store_wf_def split: prod.splits bool.splits if_splits dest!: client_callD)

lemma store_wf_UpdateUserRoom: "store_wf k \<Longrightarrow> store_wf (snd (UpdateUserRoom now k uid rid))"
proof -
  assume wf: "store_wf k"
  obtain x k1 where g: "GetUser k uid = (x, k1)" by (cases "GetUser k uid")
  from GetUserD [OF g] wf have k1: "store_wf k1" and x: "x = Inl KVError \<or> x = Inr (users k uid)"
    by (auto intro: store_wf_rooms_same)
  show ?thesis
    using g x k1 store_wf_SaveUser [OF k1]
    by (auto simp: UpdateUserRoom_def split: option.splits)
qed

lemma store_wf_AddUserToRoom:
  assumes wf: "store_wf k" shows "store_wf (snd (AddUserToRoom now k rid uid))"
proof -
  obtain x k1 where g: "GetRoom k rid = (x, k1)" by (cases "GetRoom k rid")
  from store_wf_GetRoom [OF wf, of rid] g have k1: "store_wf k1" by simp
  from GetRoomD [OF g] have x: "x = Inl KVError \<or> x = Inr (rooms k rid)" by simp
  let ?room = "case rooms k rid of
                 None \<Rightarrow> \<lparr>room_ID = rid, room_Users = [], room_CreatedAt = now, room_UpdatedAt = now\<rparr>
               | Some r \<Rightarrow> r"
  have start: "room_wf rid ?room \<or> (room_ID ?room = rid \<and> room_Users ?room = [])"
    using wf by (auto simp: store_wf_def split: option.splits)
  have saved: "store_wf (snd (SaveRoom k1 r'))" if "AddUser now ?room uid = (True, r')" for r'
  proof -
    from room_wf_AddUser [OF start that] have "room_wf rid r'" .
    moreover from this have "room_ID r' = rid" by (simp add: room_wf_def)
    ultimately show ?thesis using store_wf_SaveRoom [OF k1, of r'] by simp
  qed
  show ?thesis
    using g x k1 saved
    by (auto simp: AddUserToRoom_def Let_def split: prod.splits bool.splits)
qed

lemma store_wf_RemoveUserFromRoom:
  assumes wf: "store_wf k" shows "store_wf (snd (RemoveUserFromRoom now k rid uid))"
proof -
  obtain x k1 where g: "GetRoom k rid = (x, k1)" by (cases "GetRoom k rid")
  from store_wf_GetRoom [OF wf, of rid] g have k1: "store_wf k1" by simp
  from GetRoomD [OF g] have x: "x = Inl KVError \<or> x = Inr (rooms k rid)" by simp
  have saved: "store_wf (snd (SaveRoom k1 (snd (RemoveUser now r uid))))"
    if "rooms k rid = Some r" "\<not> IsEmpty (snd (RemoveUser now r uid))" for r
  proof -
    from wf that(1) have "room_wf rid r" by (simp add: store_wf_def)
    with that(2) have "room_wf (room_ID (snd (RemoveUser now r uid))) (snd (RemoveUser now r uid))"
      by (auto simp: room_wf_def RemoveUser_def IsEmpty_def)
    then show ?thesis by (rule store_wf_SaveRoom [OF k1])
  qed
  show ?thesis
    using g x k1 saved store_wf_DeleteRoom [OF k1, of rid]
    by (auto simp: RemoveUserFromRoom_def Let_def split: option.splits)
qed

lemma store_wf_JoinRoom:
  assumes "store_wf k" shows "store_wf (snd (JoinRoom now k uid rid))"
proof -
  obtain x k1 where g: "GetRoom k rid = (x, k1)" by (cases "GetRoom k rid")
  obtain e2 k2 where a: "AddUserToRoom now k1 rid uid = (e2, k2)"
    by (cases "AddUserToRoom now k1 rid uid")
  obtain e3 k3 where u: "UpdateUserRoom now k2 uid rid = (e3, k3)"
    by (cases "UpdateUserRoom now k2 uid rid")
  from store_wf_GetRoom [OF assms, of rid] g have k1: "store_wf k1" by simp
  from store_wf_AddUserToRoom [OF k1, of now rid uid] a have k2: "store_wf k2" by simp
  from store_wf_UpdateUserRoom [OF k2, of now uid rid] u have k3: "store_wf k3" by simp
  from store_wf_GetRoom [OF k3, of rid] have k4: "store_wf (snd (GetRoom k3 rid))" .
  show ?thesis
    using g a u k1 k2 k3 k4
    by (simp add: JoinRoom_def split: sum.splits option.splits)
qed

lemma store_wf_LeaveRoom:
  assumes "store_wf k" shows "store_wf (snd (LeaveRoom now k uid rid))"
proof -
  obtain e1 k1 where r: "RemoveUserFromRoom now k rid uid = (e1, k1)"
    by (cases "RemoveUserFromRoom now k rid uid")
  from store_wf_RemoveUserFromRoom [OF assms, of now rid uid] r have k1: "store_wf k1" by simp
  from store_wf_UpdateUserRoom [OF k1, of now uid "[]"] r k1 show ?thesis
    by (simp add: LeaveRoom_def split: option.splits)
qed

lemma store_wf_apply_op: "store_wf k \<Longrightarrow> store_wf (apply_op k op)"
  by (cases op)
     (simp_all add: store_wf_AddUserToRoom store_wf_RemoveUserFromRoom store_wf_JoinRoom
        store_wf_LeaveRoom store_wf_SaveUser store_wf_DeleteUser, simp add: store_wf_def)

lemma store_wf_foldl: "store_wf k \<Longrightarrow> store_wf (foldl apply_op k ops)"
  by (induction ops arbitrary: k) (simp_all add: store_wf_apply_op)

lemma store_wf_run_ops:
  "rooms k = Map.empty \<Longrightarrow> users k = Map.empty \<Longrightarrow> store_wf (run_ops k ops)"
  unfolding run_ops_def by (rule store_wf_foldl) (simp add: store_wf_def)

text \<open>
  Claim C8, as amended. Take any store built from an empty one by the room and user
  operations, and a leave during which no store call fails. \<^verbatim>\<open>LeaveRoom\<close> removes the
  user id from the room record, deletes the record when no member is left, and leaves
  every other room record as it was; leaving a room that does not hold the user, or that
  does not exist, changes no room record. When the user id has a session record, the
  leave then clears the user's current room, refreshes the last-seen time and returns
  success: so a leave of a room the user is not in is not a no-op on the session. When
  the user id has no session record, the leave returns the error \<open>user not found\<close>,
  after the change to the room, and changes no session record. As the claim is written
  (always a silent no-op returning success) it fails: see the counterexample below.
\<close>

theorem LeaveRoom_effect:
  assumes fresh: "rooms k0 = Map.empty" "users k0 = Map.empty"
    and reach: "k = run_ops k0 ops"
    and nofault: "faults k = []"
  shows "\<exists>k'. snd (LeaveRoom now k userID roomID) = k' \<and>
           members k' roomID = remove1 userID (members k roomID) \<and>
           userID \<notin> set (members k' roomID) \<and>
           (members k' roomID = [] \<longrightarrow> rooms k' roomID = None) \<and>
           (\<forall>other. other \<noteq> roomID \<longrightarrow> rooms k' other = rooms k other) \<and>
           (userID \<notin> set (members k roomID) \<longrightarrow> rooms k' = rooms k) \<and>
           (case users k userID of
              Some u \<Rightarrow> fst (LeaveRoom now k userID roomID) = None \<and>
                        users k' = (users k)(userID \<mapsto> u\<lparr>us_RoomID := [], us_LastSeen := now\<rparr>)
            | None \<Rightarrow> fst (LeaveRoom now k userID roomID) = Some (UserNotFound userID) \<and>
                      users k' = users k)"
proof -
  from store_wf_run_ops [OF fresh, of ops] reach have wf: "store_wf k" by simp
  then have rwf: "room_ID r = roomID \<and> distinct (room_Users r) \<and> room_Users r \<noteq> []"
    if "rooms k roomID = Some r" for r
    using that by (auto simp: store_wf_def room_wf_def)
  show ?thesis
  proof (cases "users k userID")
    case None
    from LeaveRoom_unknown_user [OF nofault None rwf, of now] None show ?thesis
      by auto
  next
    case (Some u)
    with wf have "us_ID u = userID" by (auto simp: store_wf_def)
    from LeaveRoom_known_user [OF nofault Some this rwf, of now] Some show ?thesis
      by auto
  qed
qed

text \<open>
  Counterexample to C8 as written, on three inputs. A user id without a session record
  leaves a room that does not exist: the result is the error \<open>user not found\<close>. The
  store fails during the leave of a member: the result is a store error. \<open>U1\<close>, whose
  current room is \<open>R\<close>, leaves the room \<open>X\<close> that does not exist: the leave returns
  success but is not a no-op, it clears the current room of \<open>U1\<close>, which is still a
  member of \<open>R\<close>.
\<close>

theorem LeaveRoom_unknown_user_counterexample:
  "rooms empty_store ''R'' = None \<and>
   LeaveRoom 1 empty_store ''ghost'' ''R'' = (Some (UserNotFound ''ghost''), empty_store) \<and>
   fst (LeaveRoom 1 (pair_store\<lparr>faults := [True]\<rparr>) ''U2'' ''R'') = Some KVError \<and>
   rooms pair_store ''X'' = None \<and>
   users pair_store ''U1'' = Some (session ''U1'' ''R'') \<and>
   LeaveRoom 5 pair_store ''U1'' ''X'' =
     (None, pair_store\<lparr>users := (users pair_store)
        (''U1'' \<mapsto> (session ''U1'' ''R'')\<lparr>us_RoomID := [], us_LastSeen := 5\<rparr>)\<rparr>) \<and>
   members pair_store ''R'' = [''U1'', ''U2'']"
  by (simp add: LeaveRoom_def RemoveUserFromRoom_nofault UpdateUserRoom_nofault empty_store_def
        pair_store_def pair_room_def session_def members_def RemoveUserFromRoom_def GetRoom_def
        client_call_def)

lemma pair_ops_run:
  "faults (run_ops empty_store pair_ops) = [] \<and>
   members (run_ops empty_store pair_ops) ''R'' = [''U1'', ''U2''] \<and>
   users (run_ops empty_store pair_ops) ''U2'' = Some ((session ''U2'' ''R'')\<lparr>us_LastSeen := 2\<rparr>) \<and>
   users (run_ops empty_store pair_ops) ''ghost'' = None"
  by (simp add: run_ops_def pair_ops_def empty_store_def session_def members_def JoinRoom_def
        AddUserToRoom_def UpdateUserRoom_def AddUser_def CanJoin_def MaxRoomUsers_def)

lemma pair_ops_leave_run:
  "faults (run_ops empty_store (pair_ops @ [Op_LeaveRoom 5 ''U2'' ''R''])) = [] \<and>
   members (run_ops empty_store (pair_ops @ [Op_LeaveRoom 5 ''U2'' ''R''])) ''R'' = [''U1'']"
  by (simp add: run_ops_def pair_ops_def empty_store_def session_def members_def JoinRoom_def
        AddUserToRoom_def UpdateUserRoom_def AddUser_def CanJoin_def MaxRoomUsers_def
        LeaveRoom_def RemoveUserFromRoom_def RemoveUser_def IsEmpty_def GetRoom_def SaveRoom_def
        DeleteRoom_def GetUser_def SaveUser_def client_call_def Let_def)

theorem LeaveRoom_effect_witness:
  "rooms empty_store = Map.empty \<and> users empty_store = Map.empty \<and>
   faults (run_ops empty_store pair_ops) = [] \<and>
   fst (LeaveRoom 5 (run_ops empty_store pair_ops) ''U2'' ''R'') = None \<and>
   members (snd (LeaveRoom 5 (run_ops empty_store pair_ops) ''U2'' ''R'')) ''R'' = [''U1''] \<and>
   fst (LeaveRoom 5 (run_ops empty_store pair_ops) ''ghost'' ''R'') = Some (UserNotFound ''ghost'') \<and>
   rooms (snd (LeaveRoom 5 (run_ops empty_store pair_ops) ''ghost'' ''R'')) =
     rooms (run_ops empty_store pair_ops) \<and>
   faults (run_ops empty_store (pair_ops @ [Op_LeaveRoom 5 ''U2'' ''R''])) = [] \<and>
   rooms (snd (LeaveRoom 6 (run_ops empty_store (pair_ops @ [Op_LeaveRoom 5 ''U2'' ''R'']))
     ''U1'' ''R'')) ''R'' = None"
proof -
  have h1: "rooms empty_store = Map.empty" and h2: "users empty_store = Map.empty"
    by (simp_all add: empty_store_def)
  have h3: "faults (run_ops empty_store pair_ops) = []"
    using pair_ops_run by simp
  have h4: "faults (run_ops empty_store (pair_ops @ [Op_LeaveRoom 5 ''U2'' ''R''])) = []"
    using pair_ops_leave_run by simp
  from LeaveRoom_effect [OF h1 h2 refl h3, of 5 "''U2''" "''R''"]
       LeaveRoom_effect [OF h1 h2 refl h3, of 5 "''ghost''" "''R''"]
       LeaveRoom_effect [OF h1 h2 refl h4, of 6 "''U1''" "''R''"]
       pair_ops_run pair_ops_leave_run h1 h2
  show ?thesis by simp
qed

subsection \<open>Adding a user twice\<close>

text \<open>
  Claim C10, as amended. For a user id already in the member list, \<^verbatim>\<open>AddUser\<close> leaves
  the record as it is (member list and \<^verbatim>\<open>UpdatedAt\<close>) and returns whether the room has
  room left: true below \<open>MaxRoomUsers\<close> members, false in a full room. For any user id,
  adding it a second time leaves the member list as the first call left it. As the claim
  is written (true for every room) it fails: see the counterexample below.
\<close>

theorem AddUser_idempotent:
  "(userID \<in> set (room_Users r) \<longrightarrow> AddUser now r userID = (CanJoin r, r)) \<and>
   room_Users (snd (AddUser now' (snd (AddUser now r userID)) userID)) =
     room_Users (snd (AddUser now r userID))"
  by (simp add: AddUser_def CanJoin_def)

text \<open>
  Counterexample to C10 as written: \<open>u0\<close> is in the member list of the full room, and
  \<^verbatim>\<open>AddUser\<close> returns false.
\<close>

theorem AddUser_full_member_counterexample:
  "''u0'' \<in> set (room_Users full_room) \<and> \<not> fst (AddUser 1 full_room ''u0'')"
  by (simp add: AddUser_def CanJoin_def full_room_def MaxRoomUsers_def)

theorem AddUser_idempotent_witness:
  "''U1'' \<in> set (room_Users pair_room) \<and> AddUser 9 pair_room ''U1'' = (True, pair_room) \<and>
   room_Users (snd (AddUser 9 (snd (AddUser 8 pair_room ''U3'')) ''U3'')) = [''U1'', ''U2'', ''U3'']"
  using AddUser_idempotent [of "''U1''" pair_room 9 9] AddUser_idempotent [of "''U3''" pair_room 9 8]
  by (simp add: CanJoin_def pair_room_def MaxRoomUsers_def AddUser_def)

section \<open>Runs of the service\<close>

lemma andThen_DoneE:
  assumes "andThen m f s = Done (r, s')"
  obtains x s1 where "m s = Done (x, s1)" and "f x s1 = Done (r, s')"
  using assms by (auto simp: andThen_def split: exec.splits)

lemma andThen_Done: "m s = Done (x, s1) \<Longrightarrow> andThen m f s = f x s1"
  by (simp add: andThen_def)

lemma mutex_not_Locked [simp]: "(m \<noteq> Locked) = (m = Unlocked)"
  by (cases m) simp_all

lemma GetConnection_Done:
  "GetConnection v s = Done (r, s') \<Longrightarrow> s' = s \<and> r = connections s v \<and> connMutex s = Unlocked"
  by (auto simp: GetConnection_def andThen_def ret_def RLock_def RUnlock_def split: if_splits)


lemma sendMessage_Done:
  assumes "sendMessage p m s = Done (e, s')"
  obtains u where "connections s p = Some u" "conn_broken (u_Connection u)" "e = Some WriteFailed" "s' = s"
        | u where "connections s p = Some u" "\<not> conn_broken (u_Connection u)" "e = None"
            "s' = s\<lparr>connections := (connections s)(p \<mapsto>
                u\<lparr>u_Connection := (u_Connection u)\<lparr>conn_written := conn_written (u_Connection u) @ [m]\<rparr>\<rparr>)\<rparr>"
  using assms
  by (auto simp: sendMessage_def andThen_def deref_def split: option.splits if_splits)

lemma setRoomID_Done:
  assumes "setRoomID p rid s = Done (r, s')"
  obtains u where "connections s p = Some u" "connMutex s = Unlocked"
    "s' = s\<lparr>connections := (connections s)(p \<mapsto> u\<lparr>u_RoomID := rid\<rparr>)\<rparr>"
  using assms
  by (cases s) (auto simp: setRoomID_def andThen_def Lock_def Unlock_def split: option.splits if_splits)

subsection \<open>Growth\<close>

lemma grows_refl: "grows P s s"
  by (auto simp: grows_def split: option.splits)

lemma grows_trans:
  assumes "grows P s s1" and "grows P s1 s2"
  shows "grows P s s2"
  unfolding grows_def
proof (intro conjI allI)
  show "connMutex s2 = connMutex s" using assms by (simp add: grows_def)
  show "faults (kv s) = [] \<longrightarrow> faults (kv s2) = []" using assms by (simp add: grows_def)
  fix v
  show "case connections s v of
          None \<Rightarrow> connections s2 v = None
        | Some u \<Rightarrow> \<exists>u' new. connections s2 v = Some u' \<and> u_ID u' = u_ID u \<and>
                       conn_broken (u_Connection u') = conn_broken (u_Connection u) \<and>
                       conn_written (u_Connection u') = conn_written (u_Connection u) @ new \<and>
                       (\<forall>m \<in> set new. P v m)"
  proof (cases "connections s v")
    case None
    with assms(1) have "connections s1 v = None"
      by (auto simp: grows_def dest!: spec [of _ v])
    with assms(2) have "connections s2 v = None"
      by (auto simp: grows_def dest!: spec [of _ v])
    with None show ?thesis by simp
  next
    case (Some u)
    with assms(1) obtain u1 new1 where 1: "connections s1 v = Some u1" "u_ID u1 = u_ID u"
      "conn_broken (u_Connection u1) = conn_broken (u_Connection u)"
      "conn_written (u_Connection u1) = conn_written (u_Connection u) @ new1" "\<forall>m \<in> set new1. P v m"
      by (auto simp: grows_def dest!: spec [of _ v])
    with assms(2) obtain u2 new2 where 2: "connections s2 v = Some u2" "u_ID u2 = u_ID u1"
      "conn_broken (u_Connection u2) = conn_broken (u_Connection u1)"
      "conn_written (u_Connection u2) = conn_written (u_Connection u1) @ new2" "\<forall>m \<in> set new2. P v m"
      by (auto simp: grows_def dest!: spec [of _ v])
    from 1 2 have "conn_written (u_Connection u2) = conn_written (u_Connection u) @ (new1 @ new2)"
      "\<forall>m \<in> set (new1 @ new2). P v m"
      by auto
    with Some 1 2 show ?thesis by auto
  qed
qed


lemma grows_same_registry:
  "connections s' = connections s \<Longrightarrow> connMutex s' = connMutex s \<Longrightarrow>
   (faults (kv s) = [] \<Longrightarrow> faults (kv s') = []) \<Longrightarrow> grows P s s'"
  by (auto simp: grows_def split: option.splits)

lemma grows_None: "grows P s s' \<Longrightarrow> (connections s' v = None) = (connections s v = None)"
  by (auto simp: grows_def split: option.splits dest!: spec [of _ v])

lemma grows_Some:
  assumes "grows P s s'" and "connections s v = Some u"
  obtains u' new where "connections s' v = Some u'" "u_ID u' = u_ID u"
    "conn_broken (u_Connection u') = conn_broken (u_Connection u)"
    "conn_written (u_Connection u') = conn_written (u_Connection u) @ new" "\<forall>m \<in> set new. P v m"
  using assms by (auto simp: grows_def dest!: spec [of _ v])

lemma grows_sent:
  assumes "grows P s s'"
  obtains new where "sent s' v = sent s v @ new" "\<forall>m \<in> set new. P v m"
proof (cases "connections s v")
  case None
  with assms have "connections s' v = None" by (simp add: grows_None)
  with None have "sent s' v = sent s v @ []" by (simp add: sent_def)
  then show ?thesis using that by force
next
  case (Some u)
  from grows_Some [OF assms Some] obtain u' new where "connections s' v = Some u'"
    "conn_written (u_Connection u') = conn_written (u_Connection u) @ new" "\<forall>m \<in> set new. P v m"
    by metis
  with Some have "sent s' v = sent s v @ new" by (simp add: sent_def)
  with \<open>\<forall>m \<in> set new. P v m\<close> show ?thesis using that by blast
qed

lemma growsI:
  assumes "connMutex s' = connMutex s"
    and "faults (kv s) = [] \<Longrightarrow> faults (kv s') = []"
    and "\<And>v. connections s v = None \<Longrightarrow> connections s' v = None"
    and "\<And>v u. connections s v = Some u \<Longrightarrow>
           \<exists>u' new. connections s' v = Some u' \<and> u_ID u' = u_ID u \<and>
             conn_broken (u_Connection u') = conn_broken (u_Connection u) \<and>
             conn_written (u_Connection u') = conn_written (u_Connection u) @ new \<and>
             (\<forall>m \<in> set new. P v m)"
  shows "grows P s s'"
  using assms by (auto simp: grows_def split: option.splits)

lemma grows_mono:
  assumes "grows P s s'" and imp: "\<And>v m. P v m \<Longrightarrow> Q v m"
  shows "grows Q s s'"
proof (rule growsI)
  show "connMutex s' = connMutex s" using assms(1) by (simp add: grows_def)
  show "faults (kv s') = []" if "faults (kv s) = []" using assms(1) that by (simp add: grows_def)
  show "connections s' v = None" if "connections s v = None" for v
    using assms(1) that by (simp add: grows_None)
  fix v u assume "connections s v = Some u"
  from grows_Some [OF assms(1) this] obtain u' new where
    "connections s' v = Some u'" "u_ID u' = u_ID u"
    "conn_broken (u_Connection u') = conn_broken (u_Connection u)"
    "conn_written (u_Connection u') = conn_written (u_Connection u) @ new" "\<forall>m \<in> set new. P v m"
    by metis
  with imp show "\<exists>u' new. connections s' v = Some u' \<and> u_ID u' = u_ID u \<and>
             conn_broken (u_Connection u') = conn_broken (u_Connection u) \<and>
             conn_written (u_Connection u') = conn_written (u_Connection u) @ new \<and>
             (\<forall>m \<in> set new. Q v m)"
    by blast
qed

lemma grows_faults: "grows P s s' \<Longrightarrow> faults (kv s) = [] \<Longrightarrow> faults (kv s') = []"
  by (simp add: grows_def)

lemma grows_mutex: "grows P s s' \<Longrightarrow> connMutex s' = connMutex s"
  by (simp add: grows_def)

subsection \<open>What each step of the engine preserves\<close>

lemma preservesD: "preserves P m \<Longrightarrow> m s = Done (r, s') \<Longrightarrow> grows P s s'"
  by (auto simp: preserves_def)

lemma preserves_mono: "preserves P m \<Longrightarrow> (\<And>v x. P v x \<Longrightarrow> Q v x) \<Longrightarrow> preserves Q m"
  unfolding preserves_def by (blast intro: grows_mono)

lemma preserves_ret: "preserves P (ret x)"
  by (simp add: preserves_def ret_def grows_refl)

lemma preserves_andThen:
  "preserves P m \<Longrightarrow> (\<And>x. preserves P (f x)) \<Longrightarrow> preserves P (andThen m f)"
  unfolding preserves_def by (blast elim: andThen_DoneE intro: grows_trans)

lemma preserves_if:
  "(c \<Longrightarrow> preserves P a) \<Longrightarrow> (\<not> c \<Longrightarrow> preserves P b) \<Longrightarrow> preserves P (if c then a else b)"
  by simp

lemma preserves_kv_call:
  "(\<And>k. faults k = [] \<Longrightarrow> faults (snd (f k)) = []) \<Longrightarrow> preserves P (kv_call f)"
  by (auto simp: preserves_def kv_call_def split: prod.splits intro!: grows_same_registry)
     (metis snd_conv)

lemma preserves_GetConnection: "preserves P (GetConnection v)"
  by (auto simp: preserves_def dest!: GetConnection_Done intro: grows_refl)

lemma preserves_deref: "preserves P (deref p)"
  by (auto simp: preserves_def deref_def grows_refl split: option.splits)

lemma preserves_sendMessage: "P p m \<Longrightarrow> preserves P (sendMessage p m)"
  unfolding preserves_def
proof (intro allI impI)
  fix s r s' assume P: "P p m" and run: "sendMessage p m s = Done (r, s')"
  from run show "grows P s s'"
  proof (rule sendMessage_Done)
    fix u assume "s' = s"
    then show ?thesis by (simp add: grows_refl)
  next
    fix u assume u: "connections s p = Some u"
      and s': "s' = s\<lparr>connections := (connections s)(p \<mapsto>
                u\<lparr>u_Connection := (u_Connection u)\<lparr>conn_written := conn_written (u_Connection u) @ [m]\<rparr>\<rparr>)\<rparr>"
    show ?thesis
      unfolding grows_def using u P by (auto simp: s' split: option.splits)
  qed
qed

lemma preserves_sendError: "P p \<lparr>msg_Type = MessageTypeError, msg_RoomID = [], msg_UserID = [],
    msg_TargetID = [], msg_Data = ErrorData code text, msg_Timestamp = now\<rparr> \<Longrightarrow>
  preserves P (sendError now p code text)"
  unfolding sendError_def by (rule preserves_sendMessage)

lemma preserves_setRoomID: "preserves P (setRoomID p rid)"
  unfolding preserves_def
proof (intro allI impI)
  fix s r s' assume "setRoomID p rid s = Done (r, s')"
  then show "grows P s s'"
    by (rule setRoomID_Done) (auto simp: grows_def split: option.splits)
qed

lemma preserves_broadcastToUsers:
  "(\<And>v. v \<in> set ids \<Longrightarrow> P v m) \<Longrightarrow> preserves P (broadcastToUsers ids m)"
  by (induction ids)
     (auto intro!: preserves_ret preserves_andThen preserves_GetConnection preserves_sendMessage
           split: option.splits)

lemma preserves_filterConnectedUsers: "preserves P (filterConnectedUsers ids)"
  by (induction ids) (auto intro!: preserves_ret preserves_andThen preserves_GetConnection)

lemma preserves_disconnectedAmong: "preserves P (disconnectedAmong ids)"
  by (induction ids) (auto intro!: preserves_ret preserves_andThen preserves_GetConnection)

subsection \<open>A store without scripted failures stays so\<close>

lemma GetRoomUsers_nofault:
  "faults k = [] \<Longrightarrow> GetRoomUsers k rid = (Inr (members k rid), k)"
  by (simp add: GetRoomUsers_def members_def split: option.splits)

lemma GetOtherUsersInRoom_nofault:
  "faults k = [] \<Longrightarrow>
   GetOtherUsersInRoom k rid ex = (Inr (filter (\<lambda>v. v \<noteq> ex) (members k rid)), k)"
  by (simp add: GetOtherUsersInRoom_def GetRoomUsers_nofault)

lemma faults_IsRoomFull: "faults k = [] \<Longrightarrow> faults (snd (IsRoomFull k rid)) = []"
  by (simp add: IsRoomFull_def split: option.splits)

lemma faults_LeaveRoom: "faults k = [] \<Longrightarrow> faults (snd (LeaveRoom now k uid rid)) = []"
  by (simp add: LeaveRoom_def RemoveUserFromRoom_nofault UpdateUserRoom_nofault split: option.splits)

lemma faults_AddUserToRoom: "faults k = [] \<Longrightarrow> faults (snd (AddUserToRoom now k rid uid)) = []"
  by (simp add: AddUserToRoom_def Let_def split: option.splits prod.splits bool.splits)

lemma faults_JoinRoom: "faults k = [] \<Longrightarrow> faults (snd (JoinRoom now k uid rid)) = []"
proof -
  assume nf: "faults k = []"
  obtain e2 k2 where a: "AddUserToRoom now k rid uid = (e2, k2)"
    by (cases "AddUserToRoom now k rid uid")
  with faults_AddUserToRoom [OF nf, of now rid uid] have k2: "faults k2 = []" by simp
  show ?thesis
    using nf a k2 by (simp add: JoinRoom_def UpdateUserRoom_nofault split: option.splits)
qed

lemma GetOtherUsersInRoom_excludes:
  "GetOtherUsersInRoom k rid ex = (Inr us, k') \<Longrightarrow> ex \<notin> set us"
  by (auto simp: GetOtherUsersInRoom_def split: prod.splits sum.splits)

subsection \<open>Loops over user ids\<close>

lemma preserves_removeFromRoom: "preserves P (removeFromRoom now rid ids)"
  by (induction ids)
     (auto intro!: preserves_ret preserves_andThen preserves_kv_call faults_LeaveRoom)

lemma preserves_cleanup: "preserves P (cleanupDisconnectedUsersFromRoom now rid)"
  unfolding cleanupDisconnectedUsersFromRoom_def
  by (auto intro!: preserves_ret preserves_andThen preserves_kv_call preserves_disconnectedAmong
        preserves_removeFromRoom simp: GetRoomUsers_nofault split: sum.splits)

lemma preserves_handleLeaveRoom:
  assumes "\<And>v m. msg_Type m = MessageTypeError \<or> msg_Type m = MessageTypeUserLeft \<Longrightarrow> P v m"
  shows "preserves P (handleLeaveRoom now p rid)"
  unfolding handleLeaveRoom_def Let_def
  by (auto intro!: preserves_ret preserves_andThen preserves_kv_call preserves_deref
        preserves_sendError preserves_setRoomID preserves_broadcastToUsers assms faults_LeaveRoom
        simp: GetOtherUsersInRoom_nofault split: option.splits)

lemma filterConnectedUsers_Done:
  "filterConnectedUsers ids s = Done (r, s') \<Longrightarrow>
     s' = s \<and> r = filter (\<lambda>v. connections s v \<noteq> None) ids"
  by (induction ids arbitrary: r)
     (auto simp: ret_def elim!: andThen_DoneE dest!: GetConnection_Done split: option.splits)

lemma broadcastToUsers_kv: "broadcastToUsers ids m s = Done (r, s') \<Longrightarrow> kv s' = kv s"
proof (induction ids arbitrary: s)
  case Nil
  then show ?case by (simp add: ret_def)
next
  case (Cons v ids)
  from Cons.prems obtain found s1 where g: "GetConnection v s = Done (found, s1)"
    and rest: "(case found of None \<Rightarrow> broadcastToUsers ids m
                | Some _ \<Rightarrow> andThen (sendMessage v m) (\<lambda>_. broadcastToUsers ids m)) s1 = Done (r, s')"
    by (auto elim!: andThen_DoneE)
  from GetConnection_Done [OF g] have s1: "s1 = s" by simp
  show ?case
  proof (cases found)
    case None
    with rest s1 Cons.IH show ?thesis by simp
  next
    case (Some u)
    with rest obtain e s2 where sm: "sendMessage v m s1 = Done (e, s2)"
      and b: "broadcastToUsers ids m s2 = Done (r, s')"
      by (auto elim!: andThen_DoneE)
    from sm have "kv s2 = kv s1" by (rule sendMessage_Done) simp_all
    with Cons.IH [OF b] s1 show ?thesis by simp
  qed
qed

section \<open>The join handler, step by step\<close>

lemma connected_others_cong:
  "rooms (kv s') = rooms (kv s) \<Longrightarrow> (\<And>v. (connections s' v = None) = (connections s v = None)) \<Longrightarrow>
   connected_others s' rid self = connected_others s rid self"
  by (simp add: connected_others_def members_def)

lemma GetOtherUsersInRoomD:
  "GetOtherUsersInRoom k rid ex = (x, k1) \<Longrightarrow>
     rooms k1 = rooms k \<and> (x = Inl KVError \<or> x = Inr (filter (\<lambda>v. v \<noteq> ex) (members k rid)))"
  by (auto simp: GetOtherUsersInRoom_def GetRoomUsers_def members_def
        split: prod.splits sum.splits option.splits dest!: GetRoomD)

lemma grows_kv_call:
  "kv_call f s = Done (r, s') \<Longrightarrow> (\<And>k. faults k = [] \<Longrightarrow> faults (snd (f k)) = []) \<Longrightarrow> grows P s s'"
  by (rule preservesD [OF preserves_kv_call])

lemma exit_run:
  assumes "andThen m (\<lambda>e. ret (tag, e)) s = Done ((out, e), s')" and "preserves P m"
  shows "out = tag \<and> grows P s s'"
  using assms by (auto elim!: andThen_DoneE simp: ret_def dest: preservesD)

lemma announceJoin_run:
  assumes run: "announceJoin now p uid roomID s1 = Done (r, s')"
  obtains cu s4 e where
    "r = (Joined, e)"
    "grows (\<lambda>v m. v \<noteq> uid \<and> v \<in> set cu \<and> m = userJoinedMsg now roomID uid (cu @ [uid])) s1 s4"
    "sendMessage p (userJoinedMsg now roomID uid (cu @ [uid])) s4 = Done (e, s')"
    "cu = [] \<or> cu = connected_others s4 roomID uid"
    "faults (kv s1) = [] \<Longrightarrow> cu = connected_others s4 roomID uid"
proof -
  let ?P = "\<lambda>cu v m. v \<noteq> uid \<and> v \<in> set cu \<and> m = userJoinedMsg now roomID uid (cu @ [uid])"
  from run obtain x2 s2 where a: "setRoomID p roomID s1 = Done (x2, s2)"
    and run2: "andThen (kv_call (\<lambda>k. GetOtherUsersInRoom k roomID uid)) (\<lambda>fetched.
     let otherUsers = (case fetched of Inl _ \<Rightarrow> [] | Inr us \<Rightarrow> us) in
     andThen (filterConnectedUsers otherUsers) (\<lambda>connectedUsers.
     let activeUsers = connectedUsers @ [uid] in
     andThen (if connectedUsers \<noteq> []
              then broadcastToUsers connectedUsers (userJoinedMsg now roomID uid activeUsers)
              else ret ()) (\<lambda>_.
     andThen (sendMessage p (userJoinedMsg now roomID uid activeUsers))
       (\<lambda>e. ret (Joined, e))))) s2 = Done (r, s')"
    unfolding announceJoin_def by (erule andThen_DoneE)
  from run2 obtain fetched s3 where b: "kv_call (\<lambda>k. GetOtherUsersInRoom k roomID uid) s2 = Done (fetched, s3)"
    and run3: "(let otherUsers = (case fetched of Inl _ \<Rightarrow> [] | Inr us \<Rightarrow> us) in
     andThen (filterConnectedUsers otherUsers) (\<lambda>connectedUsers.
     let activeUsers = connectedUsers @ [uid] in
     andThen (if connectedUsers \<noteq> []
              then broadcastToUsers connectedUsers (userJoinedMsg now roomID uid activeUsers)
              else ret ()) (\<lambda>_.
     andThen (sendMessage p (userJoinedMsg now roomID uid activeUsers))
       (\<lambda>e. ret (Joined, e))))) s3 = Done (r, s')"
    by (erule andThen_DoneE)
  define others where "others = (case fetched of Inl _ \<Rightarrow> [] | Inr us \<Rightarrow> us)"
  from run3 obtain cu s3' where c: "filterConnectedUsers others s3 = Done (cu, s3')"
    and run4: "andThen (if cu \<noteq> []
              then broadcastToUsers cu (userJoinedMsg now roomID uid (cu @ [uid]))
              else ret ()) (\<lambda>_.
     andThen (sendMessage p (userJoinedMsg now roomID uid (cu @ [uid])))
       (\<lambda>e. ret (Joined, e))) s3' = Done (r, s')"
    unfolding Let_def others_def [symmetric] by (erule andThen_DoneE)
  from filterConnectedUsers_Done [OF c]
  have s3': "s3' = s3" and cu: "cu = filter (\<lambda>v. connections s3 v \<noteq> None) others" by simp_all
  from run4 obtain x4 s4 where d: "(if cu \<noteq> []
              then broadcastToUsers cu (userJoinedMsg now roomID uid (cu @ [uid]))
              else ret ()) s3 = Done (x4, s4)"
    and run5: "andThen (sendMessage p (userJoinedMsg now roomID uid (cu @ [uid])))
       (\<lambda>e. ret (Joined, e)) s4 = Done (r, s')"
    unfolding s3' by (erule andThen_DoneE)
  from run5 obtain e where e: "sendMessage p (userJoinedMsg now roomID uid (cu @ [uid])) s4 = Done (e, s')"
    and r: "r = (Joined, e)"
    by (auto elim!: andThen_DoneE simp: ret_def)
  have excl: "uid \<notin> set others"
  proof (cases fetched)
    case (Inl err)
    then show ?thesis by (simp add: others_def)
  next
    case (Inr us)
    with b have "GetOtherUsersInRoom (kv s2) roomID uid = (Inr us, kv s3)"
      by (auto simp: kv_call_def split: prod.splits)
    from GetOtherUsersInRoom_excludes [OF this] Inr show ?thesis by (simp add: others_def)
  qed
  then have cu_excl: "\<And>v. v \<in> set cu \<Longrightarrow> v \<noteq> uid"
    by (auto simp: cu)
  have g12: "grows (?P cu) s1 s2"
    using a by (rule preservesD [OF preserves_setRoomID])
  have g23: "grows (?P cu) s2 s3"
    using b by (rule grows_kv_call) (simp add: GetOtherUsersInRoom_nofault)
  have "preserves (?P cu) (if cu \<noteq> []
              then broadcastToUsers cu (userJoinedMsg now roomID uid (cu @ [uid]))
              else ret ())"
    using cu_excl by (auto intro!: preserves_ret preserves_broadcastToUsers)
  from preservesD [OF this d] have g34: "grows (?P cu) s3 s4" .
  have g: "grows (?P cu) s1 s4"
    by (rule grows_trans [OF grows_trans [OF g12 g23] g34])
  from a have k2: "kv s2 = kv s1" by (rule setRoomID_Done) simp
  from b have lookup: "GetOtherUsersInRoom (kv s2) roomID uid = (fetched, kv s3)"
    and c3: "connections s3 = connections s2"
    by (auto simp: kv_call_def split: prod.splits)
  note look = GetOtherUsersInRoomD [OF lookup]
  from d have k4: "kv s4 = kv s3"
    by (auto simp: ret_def dest: broadcastToUsers_kv split: if_splits)
  have same: "connected_others s4 roomID uid =
      filter (\<lambda>v. connections s3 v \<noteq> None) (filter (\<lambda>v. v \<noteq> uid) (members (kv s2) roomID))"
  proof -
    have "connected_others s4 roomID uid = connected_others s3 roomID uid"
      by (rule connected_others_cong) (simp add: k4, rule grows_None [OF g34])
    also have "\<dots> = filter (\<lambda>v. connections s3 v \<noteq> None)
        (filter (\<lambda>v. v \<noteq> uid) (members (kv s2) roomID))"
      using look by (simp add: connected_others_def members_def)
    finally show ?thesis .
  qed
  have either: "cu = [] \<or> cu = connected_others s4 roomID uid"
    using look same by (auto simp: cu others_def)
  have nofault: "cu = connected_others s4 roomID uid" if nf: "faults (kv s1) = []"
  proof -
    from nf k2 have "faults (kv s2) = []" by simp
    from GetOtherUsersInRoom_nofault [OF this, of roomID uid] lookup
    have "fetched = Inr (filter (\<lambda>v. v \<noteq> uid) (members (kv s2) roomID))"
      by simp
    with same show ?thesis by (simp add: cu others_def)
  qed
  show ?thesis
    by (rule that [OF r g e either nofault])
qed

lemma preserves_leave_not_joined: "preserves not_joined (handleLeaveRoom now p rid)"
  by (rule preserves_handleLeaveRoom) auto

lemma handleJoinRoom_run:
  assumes run: "handleJoinRoom js now p msg s = Done ((out, e), s')"
    and u: "connections s p = Some u"
  shows "out \<noteq> Joined \<and> grows not_joined s s' \<or>
         (\<exists>roomID s1. joinData js msg = Some roomID \<and> grows not_joined s s1 \<and>
            announceJoin now p (u_ID u) roomID s1 = Done ((out, e), s'))"
proof -
  have d: "deref p s = Done (u, s)" using u by (simp add: deref_def)
  show ?thesis
  proof (cases "joinData js msg")
    case None
    with run d have "andThen (sendError now p 400 ''Invalid join room data'')
        (\<lambda>e. ret (InvalidJoinData, e)) s = Done ((out, e), s')"
      by (simp add: handleJoinRoom_def andThen_Done)
    moreover have "preserves not_joined (sendError now p 400 ''Invalid join room data'')"
      by (rule preserves_sendError) simp
    ultimately have "out = InvalidJoinData \<and> grows not_joined s s'"
      by (rule exit_run)
    then show ?thesis by simp
  next
    case (Some roomID)
    with run d have body: "andThen (if u_RoomID u \<noteq> [] \<and> u_RoomID u \<noteq> roomID
                    then andThen (handleLeaveRoom now p (u_RoomID u)) (\<lambda>_. ret ())
                    else ret ()) (\<lambda>_.
           andThen (cleanupDisconnectedUsersFromRoom now roomID) (\<lambda>_.
           andThen (kv_call (\<lambda>k. IsRoomFull k roomID)) (\<lambda>status.
             case status of
               Inl _ \<Rightarrow>
                 andThen (sendError now p 500 ''Failed to check room status'')
                   (\<lambda>e. ret (StatusCheckFailed, e))
             | Inr isFull \<Rightarrow>
                 andThen (kv_call (\<lambda>k. GetRoomUsers k roomID)) (\<lambda>_.
                 if isFull
                 then andThen (sendMessage p
                         \<lparr>msg_Type = MessageTypeRoomFull, msg_RoomID = roomID, msg_UserID = [],
                          msg_TargetID = [], msg_Data = NoData, msg_Timestamp = now\<rparr>)
                        (\<lambda>e. ret (RoomWasFull, e))
                 else
                   andThen (kv_call (\<lambda>k. JoinRoom now k (u_ID u) roomID)) (\<lambda>joined.
                     case joined of
                       Inl _ \<Rightarrow>
                         andThen (sendError now p 500 ''Failed to join room'')
                           (\<lambda>e. ret (JoinFailed, e))
                     | Inr _ \<Rightarrow> announceJoin now p (u_ID u) roomID))))) s = Done ((out, e), s')"
      by (simp add: handleJoinRoom_def andThen_Done)
    from body obtain xa sa where
      a: "(if u_RoomID u \<noteq> [] \<and> u_RoomID u \<noteq> roomID
                    then andThen (handleLeaveRoom now p (u_RoomID u)) (\<lambda>_. ret ())
                    else ret ()) s = Done (xa, sa)"
      and body_a: "andThen (cleanupDisconnectedUsersFromRoom now roomID) (\<lambda>_.
           andThen (kv_call (\<lambda>k. IsRoomFull k roomID)) (\<lambda>status.
             case status of
               Inl _ \<Rightarrow>
                 andThen (sendError now p 500 ''Failed to check room status'')
                   (\<lambda>e. ret (StatusCheckFailed, e))
             | Inr isFull \<Rightarrow>
                 andThen (kv_call (\<lambda>k. GetRoomUsers k roomID)) (\<lambda>_.
                 if isFull
                 then andThen (sendMessage p
                         \<lparr>msg_Type = MessageTypeRoomFull, msg_RoomID = roomID, msg_UserID = [],
                          msg_TargetID = [], msg_Data = NoData, msg_Timestamp = now\<rparr>)
                        (\<lambda>e. ret (RoomWasFull, e))
                 else
                   andThen (kv_call (\<lambda>k. JoinRoom now k (u_ID u) roomID)) (\<lambda>joined.
                     case joined of
                       Inl _ \<Rightarrow>
                         andThen (sendError now p 500 ''Failed to join room'')
                           (\<lambda>e. ret (JoinFailed, e))
                     | Inr _ \<Rightarrow> announceJoin now p (u_ID u) roomID)))) sa = Done ((out, e), s')"
      by (erule andThen_DoneE)
    have "preserves not_joined (if u_RoomID u \<noteq> [] \<and> u_RoomID u \<noteq> roomID
                    then andThen (handleLeaveRoom now p (u_RoomID u)) (\<lambda>_. ret ())
                    else ret ())"
      by (auto intro!: preserves_andThen preserves_ret preserves_leave_not_joined)
    from preservesD [OF this a] have ga: "grows not_joined s sa" .
    from body_a obtain xb sb where
      b: "cleanupDisconnectedUsersFromRoom now roomID sa = Done (xb, sb)"
      and body_b: "andThen (kv_call (\<lambda>k. IsRoomFull k roomID)) (\<lambda>status.
             case status of
               Inl _ \<Rightarrow>
                 andThen (sendError now p 500 ''Failed to check room status'')
                   (\<lambda>e. ret (StatusCheckFailed, e))
             | Inr isFull \<Rightarrow>
                 andThen (kv_call (\<lambda>k. GetRoomUsers k roomID)) (\<lambda>_.
                 if isFull
                 then andThen (sendMessage p
                         \<lparr>msg_Type = MessageTypeRoomFull, msg_RoomID = roomID, msg_UserID = [],
                          msg_TargetID = [], msg_Data = NoData, msg_Timestamp = now\<rparr>)
                        (\<lambda>e. ret (RoomWasFull, e))
                 else
                   andThen (kv_call (\<lambda>k. JoinRoom now k (u_ID u) roomID)) (\<lambda>joined.
                     case joined of
                       Inl _ \<Rightarrow>
                         andThen (sendError now p 500 ''Failed to join room'')
                           (\<lambda>e. ret (JoinFailed, e))
                     | Inr _ \<Rightarrow> announceJoin now p (u_ID u) roomID))) sb = Done ((out, e), s')"
      by (erule andThen_DoneE)
    from preservesD [OF preserves_cleanup b] have gb: "grows not_joined sa sb" .
    from body_b obtain status sc where
      c: "kv_call (\<lambda>k. IsRoomFull k roomID) sb = Done (status, sc)"
      and body_c: "(case status of
               Inl _ \<Rightarrow>
                 andThen (sendError now p 500 ''Failed to check room status'')
                   (\<lambda>e. ret (StatusCheckFailed, e))
             | Inr isFull \<Rightarrow>
                 andThen (kv_call (\<lambda>k. GetRoomUsers k roomID)) (\<lambda>_.
                 if isFull
                 then andThen (sendMessage p
                         \<lparr>msg_Type = MessageTypeRoomFull, msg_RoomID = roomID, msg_UserID = [],
                          msg_TargetID = [], msg_Data = NoData, msg_Timestamp = now\<rparr>)
                        (\<lambda>e. ret (RoomWasFull, e))
                 else
                   andThen (kv_call (\<lambda>k. JoinRoom now k (u_ID u) roomID)) (\<lambda>joined.
                     case joined of
                       Inl _ \<Rightarrow>
                         andThen (sendError now p 500 ''Failed to join room'')
                           (\<lambda>e. ret (JoinFailed, e))
                     | Inr _ \<Rightarrow> announceJoin now p (u_ID u) roomID))) sc = Done ((out, e), s')"
      by (erule andThen_DoneE)
    have "grows not_joined sb sc"
      using c by (rule grows_kv_call) (rule faults_IsRoomFull)
    with ga gb have gc: "grows not_joined s sc"
      by (blast intro: grows_trans)
    show ?thesis
    proof (cases status)
      case (Inl err)
      with body_c have "andThen (sendError now p 500 ''Failed to check room status'')
                   (\<lambda>e. ret (StatusCheckFailed, e)) sc = Done ((out, e), s')"
        by simp
      moreover have "preserves not_joined (sendError now p 500 ''Failed to check room status'')"
        by (rule preserves_sendError) simp
      ultimately have "out = StatusCheckFailed \<and> grows not_joined sc s'"
        by (rule exit_run)
      then have "out = StatusCheckFailed" "grows not_joined sc s'" by simp_all
      with gc show ?thesis by (auto intro: grows_trans)
    next
      case (Inr isFull)
      with body_c obtain xd sd where
        d: "kv_call (\<lambda>k. GetRoomUsers k roomID) sc = Done (xd, sd)"
        and body_d: "(if isFull
                 then andThen (sendMessage p
                         \<lparr>msg_Type = MessageTypeRoomFull, msg_RoomID = roomID, msg_UserID = [],
                          msg_TargetID = [], msg_Data = NoData, msg_Timestamp = now\<rparr>)
                        (\<lambda>e. ret (RoomWasFull, e))
                 else
                   andThen (kv_call (\<lambda>k. JoinRoom now k (u_ID u) roomID)) (\<lambda>joined.
                     case joined of
                       Inl _ \<Rightarrow>
                         andThen (sendError now p 500 ''Failed to join room'')
                           (\<lambda>e. ret (JoinFailed, e))
                     | Inr _ \<Rightarrow> announceJoin now p (u_ID u) roomID)) sd = Done ((out, e), s')"
        by (auto elim!: andThen_DoneE)
      have "grows not_joined sc sd"
        using d by (rule grows_kv_call) (simp add: GetRoomUsers_nofault)
      with gc have gd: "grows not_joined s sd"
        by (blast intro: grows_trans)
      show ?thesis
      proof (cases isFull)
        case True
        with body_d have "andThen (sendMessage p
                         \<lparr>msg_Type = MessageTypeRoomFull, msg_RoomID = roomID, msg_UserID = [],
                          msg_TargetID = [], msg_Data = NoData, msg_Timestamp = now\<rparr>)
                        (\<lambda>e. ret (RoomWasFull, e)) sd = Done ((out, e), s')"
          by simp
        moreover have "preserves not_joined (sendMessage p
                         \<lparr>msg_Type = MessageTypeRoomFull, msg_RoomID = roomID, msg_UserID = [],
                          msg_TargetID = [], msg_Data = NoData, msg_Timestamp = now\<rparr>)"
        by (rule preserves_sendMessage) simp
      ultimately have "out = RoomWasFull \<and> grows not_joined sd s'"
        by (rule exit_run)
      then have "out = RoomWasFull" "grows not_joined sd s'" by simp_all
        with gd show ?thesis by (auto intro: grows_trans)
      next
        case False
        with body_d obtain joined se where
          j: "kv_call (\<lambda>k. JoinRoom now k (u_ID u) roomID) sd = Done (joined, se)"
          and body_e: "(case joined of
                       Inl _ \<Rightarrow>
                         andThen (sendError now p 500 ''Failed to join room'')
                           (\<lambda>e. ret (JoinFailed, e))
                     | Inr _ \<Rightarrow> announceJoin now p (u_ID u) roomID) se = Done ((out, e), s')"
          by (auto elim!: andThen_DoneE)
        have "grows not_joined sd se"
          using j by (rule grows_kv_call) (rule faults_JoinRoom)
        with gd have ge: "grows not_joined s se"
          by (blast intro: grows_trans)
        show ?thesis
        proof (cases joined)
          case (Inl err)
          with body_e have "andThen (sendError now p 500 ''Failed to join room'')
                           (\<lambda>e. ret (JoinFailed, e)) se = Done ((out, e), s')"
            by simp
          moreover have "preserves not_joined (sendError now p 500 ''Failed to join room'')"
        by (rule preserves_sendError) simp
      ultimately have "out = JoinFailed \<and> grows not_joined se s'"
        by (rule exit_run)
      then have "out = JoinFailed" "grows not_joined se s'" by simp_all
          with ge show ?thesis by (auto intro: grows_trans)
        next
          case (Inr room)
          with body_e have "announceJoin now p (u_ID u) roomID se = Done ((out, e), s')"
            by simp
          with ge Some show ?thesis by blast
        qed
      qed
    qed
  qed
qed

section \<open>What the engine sends\<close>

lemmas run_defs = Let_def andThen_def ret_def kv_call_def Lock_def Unlock_def RLock_def RUnlock_def
  deref_def GetConnection_def sendMessage_def sendError_def forwardToUser_def setRoomID_def

lemmas store_defs = client_call_def GetRoom_def SaveRoom_def DeleteRoom_def GetUser_def SaveUser_def
  UpdateUserRoom_def AddUserToRoom_def RemoveUserFromRoom_def GetRoomUsers_def JoinRoom_def
  LeaveRoom_def GetOtherUsersInRoom_def IsRoomFull_def UpdateUserActivity_def
  AddUser_def RemoveUser_def CanJoin_def IsEmpty_def MaxRoomUsers_def

lemmas handler_defs = HandleMessage_def handleJoinRoom_def announceJoin_def joinData_def
  handleLeaveRoom_def handleOffer_def handleAnswer_def handleIceCandidate_def
  cleanupDisconnectedUsersFromRoom_def userJoinedMsg_def

lemmas data_defs = alone_state_def pair_state_def lobby_state_def pair_store_def pair_room_def
  session_def member_def conn0_def frame_def table_json_def

lemma sendMessage_sent:
  assumes "sendMessage p m s = Done (e, s')"
  shows "kv s' = kv s \<and> (\<forall>v. (connections s' v = None) = (connections s v = None)) \<and>
         (\<forall>v. sent s' v = sent s v @ (if v = p \<and> e = None then [m] else []))"
  using assms by (rule sendMessage_Done) (auto simp: sent_def)

subsection \<open>The confirmation of a join\<close>

text \<open>
  One handling of a join frame, seen from every connection: all the \<^verbatim>\<open>user_joined\<close>
  frames it writes are one and the same frame; a peer that is written one is a connected
  other member, and then the users list is the connected others followed by the joiner;
  the joiner is written at most one.
\<close>

lemma join_frames:
  assumes run: "handleJoinRoom js now p msg s = Done ((out, e), s')"
    and u: "connections s p = Some u" and id: "u_ID u = p"
  shows "\<exists>roomID users. \<forall>v. \<exists>new. sent s' v = sent s v @ new \<and>
           (\<forall>m \<in> set new. msg_Type m = MessageTypeUserJoined \<longrightarrow>
              m = userJoinedMsg now roomID p users \<and>
              (v \<noteq> p \<longrightarrow> users = connected_others s' roomID p @ [p] \<and>
                          v \<in> set (connected_others s' roomID p))) \<and>
           (v = p \<longrightarrow> length (filter (\<lambda>m. msg_Type m = MessageTypeUserJoined) new) \<le> 1) \<and>
           (out = Joined \<and> e = None \<longrightarrow> v = p \<longrightarrow>
              joinData js msg = Some roomID \<and>
              filter (\<lambda>m. msg_Type m = MessageTypeUserJoined) new = [userJoinedMsg now roomID p users] \<and>
              (users = connected_others s' roomID p @ [p] \<or> users = [p]) \<and>
              (faults (kv s) = [] \<longrightarrow> users = connected_others s' roomID p @ [p]))"
proof -
  from handleJoinRoom_run [OF run u] id
  consider "out \<noteq> Joined" "grows not_joined s s'"
    | roomID s1 where "joinData js msg = Some roomID" "grows not_joined s s1"
        "announceJoin now p p roomID s1 = Done ((out, e), s')"
    by auto
  then show ?thesis
  proof cases
    case 1
    have "\<exists>new. sent s' v = sent s v @ new \<and>
           (\<forall>m \<in> set new. msg_Type m \<noteq> MessageTypeUserJoined) \<and>
           filter (\<lambda>m. msg_Type m = MessageTypeUserJoined) new = []" for v
    proof -
      from grows_sent [OF 1(2), of v] obtain new where
        "sent s' v = sent s v @ new" "\<forall>m \<in> set new. msg_Type m \<noteq> MessageTypeUserJoined"
        by metis
      moreover from this(2) have "filter (\<lambda>m. msg_Type m = MessageTypeUserJoined) new = []"
        by (simp add: filter_empty_conv)
      ultimately show ?thesis by blast
    qed
    with 1(1) show ?thesis by fastforce
  next
    case 2
    from 2(3) obtain cu s4 where
      out: "out = Joined"
      and g: "grows (\<lambda>v m. v \<noteq> p \<and> v \<in> set cu \<and> m = userJoinedMsg now roomID p (cu @ [p])) s1 s4"
      and echo: "sendMessage p (userJoinedMsg now roomID p (cu @ [p])) s4 = Done (e, s')"
      and either: "cu = [] \<or> cu = connected_others s4 roomID p"
      and nofault: "faults (kv s1) = [] \<Longrightarrow> cu = connected_others s4 roomID p"
      by (auto elim!: announceJoin_run)
    note fin = sendMessage_sent [OF echo]
    have co: "connected_others s' roomID p = connected_others s4 roomID p"
      by (rule connected_others_cong) (simp_all add: fin)
    let ?frame = "userJoinedMsg now roomID p (cu @ [p])"
    have kind: "msg_Type ?frame = MessageTypeUserJoined"
      by (simp add: userJoinedMsg_def)
    have one: "\<exists>new. sent s' v = sent s v @ new \<and>
           (\<forall>m \<in> set new. msg_Type m = MessageTypeUserJoined \<longrightarrow>
              m = ?frame \<and>
              (v \<noteq> p \<longrightarrow> cu @ [p] = connected_others s' roomID p @ [p] \<and>
                          v \<in> set (connected_others s' roomID p))) \<and>
           (v = p \<longrightarrow> length (filter (\<lambda>m. msg_Type m = MessageTypeUserJoined) new) \<le> 1) \<and>
           (out = Joined \<and> e = None \<longrightarrow> v = p \<longrightarrow>
              joinData js msg = Some roomID \<and>
              filter (\<lambda>m. msg_Type m = MessageTypeUserJoined) new = [?frame] \<and>
              (cu @ [p] = connected_others s' roomID p @ [p] \<or> cu @ [p] = [p]) \<and>
              (faults (kv s) = [] \<longrightarrow> cu @ [p] = connected_others s' roomID p @ [p]))" for v
    proof -
      from grows_sent [OF 2(2), of v] obtain pre where
        pre: "sent s1 v = sent s v @ pre" "\<forall>m \<in> set pre. msg_Type m \<noteq> MessageTypeUserJoined"
        by metis
      from grows_sent [OF g, of v] obtain mid where
        mid: "sent s4 v = sent s1 v @ mid"
          "\<forall>m \<in> set mid. v \<noteq> p \<and> v \<in> set cu \<and> m = ?frame"
        by metis
      let ?fin = "if v = p \<and> e = None then [?frame] else []"
      have all: "sent s' v = sent s v @ (pre @ mid @ ?fin)"
        using fin pre mid by simp
      have nopre: "filter (\<lambda>m. msg_Type m = MessageTypeUserJoined) pre = []"
        using pre(2) by (simp add: filter_empty_conv)
      have nomid: "mid = []" if "v = p"
        using mid(2) that by (cases mid) auto
      have frames: "m = ?frame \<and>
              (v \<noteq> p \<longrightarrow> cu @ [p] = connected_others s' roomID p @ [p] \<and>
                          v \<in> set (connected_others s' roomID p))"
        if "m \<in> set (pre @ mid @ ?fin)" "msg_Type m = MessageTypeUserJoined" for m
      proof -
        from that pre(2) have "m \<in> set mid \<or> m \<in> set ?fin" by auto
        then show ?thesis
        proof
          assume m: "m \<in> set mid"
          with mid(2) have "v \<noteq> p" "v \<in> set cu" "m = ?frame" by auto
          moreover from this(2) either have "cu = connected_others s4 roomID p" by auto
          ultimately show ?thesis by (simp add: co)
        next
          assume "m \<in> set ?fin"
          then show ?thesis by (auto split: if_splits)
        qed
      qed
      have atmost: "length (filter (\<lambda>m. msg_Type m = MessageTypeUserJoined) (pre @ mid @ ?fin)) \<le> 1"
        if "v = p"
        using nopre nomid [OF that] by simp
      have conf: "joinData js msg = Some roomID \<and>
              filter (\<lambda>m. msg_Type m = MessageTypeUserJoined) (pre @ mid @ ?fin) = [?frame] \<and>
              (cu @ [p] = connected_others s' roomID p @ [p] \<or> cu @ [p] = [p]) \<and>
              (faults (kv s) = [] \<longrightarrow> cu @ [p] = connected_others s' roomID p @ [p])"
        if "e = None" "v = p"
      proof -
        have "faults (kv s) = [] \<longrightarrow> cu = connected_others s' roomID p"
          using nofault grows_faults [OF 2(2)] co by simp
        with either that nopre nomid kind 2(1) show ?thesis
          by (auto simp: co)
      qed
      from all frames atmost conf show ?thesis by blast
    qed
    show ?thesis
      by (rule exI [of _ roomID], rule exI [of _ "cu @ [p]"], rule allI, rule one)
  qed
qed

text \<open>
  Claim C3, as amended. When \<^verbatim>\<open>handleJoinRoom\<close> runs to its last statement and that
  write succeeds (outcome \<open>Joined\<close>, no error), for a sender registered under its own id:
  among the frames the sender receives from this call there is exactly one of kind
  \<^verbatim>\<open>user_joined\<close>, and its \<^verbatim>\<open>user_id\<close> is the sender's id. Its users list is either
  the connected others of the room followed by the sender, or the sender alone; it is the
  connected others followed by the sender whenever no store call fails during the
  handling. So it always holds the joiner, and it is the one-element list of the joiner
  when no other member is connected. As the claim is written (always connected-others
  plus self) it fails: see the counterexample below.
\<close>

theorem join_confirmation:
  assumes run: "handleJoinRoom js now p msg s = Done ((Joined, None), s')"
    and u: "connections s p = Some u" and id: "u_ID u = p"
  shows "\<exists>roomID new users. joinData js msg = Some roomID \<and> sent s' p = sent s p @ new \<and>
           filter (\<lambda>m. msg_Type m = MessageTypeUserJoined) new =
             [\<lparr>msg_Type = MessageTypeUserJoined, msg_RoomID = roomID, msg_UserID = p,
               msg_TargetID = [], msg_Data = UserJoinedData p users, msg_Timestamp = now\<rparr>] \<and>
           (users = connected_others s' roomID p @ [p] \<or> users = [p]) \<and>
           (faults (kv s) = [] \<longrightarrow> users = connected_others s' roomID p @ [p]) \<and>
           p \<in> set users \<and>
           (connected_others s' roomID p = [] \<longrightarrow> users = [p])"
proof -
  from join_frames [OF run u id] obtain roomID users new where
    "sent s' p = sent s p @ new" "joinData js msg = Some roomID"
    "filter (\<lambda>m. msg_Type m = MessageTypeUserJoined) new = [userJoinedMsg now roomID p users]"
    "users = connected_others s' roomID p @ [p] \<or> users = [p]"
    "faults (kv s) = [] \<longrightarrow> users = connected_others s' roomID p @ [p]"
    by (metis (no_types, lifting))
  then show ?thesis
    unfolding userJoinedMsg_def by (intro exI [of _ roomID] exI [of _ new] exI [of _ users]) auto
qed

theorem join_confirmation_witness:
  "connections lobby_state ''U2'' = Some (member ''U2'' []) \<and> u_ID (member ''U2'' []) = ''U2'' \<and>
   faults (kv lobby_state) = [] \<and>
   (\<exists>s'. handleJoinRoom table_json 7 ''U2'' (frame MessageTypeJoinRoom [] (Raw ''room R'')) lobby_state
            = Done ((Joined, None), s') \<and>
      filter (\<lambda>m. msg_Type m = MessageTypeUserJoined) (sent s' ''U2'') =
        [\<lparr>msg_Type = MessageTypeUserJoined, msg_RoomID = ''R'', msg_UserID = ''U2'',
          msg_TargetID = [],
          msg_Data = UserJoinedData ''U2'' (connected_others s' ''R'' ''U2'' @ [''U2'']),
          msg_Timestamp = 7\<rparr>])"
proof -
  let ?msg = "frame MessageTypeJoinRoom [] (Raw ''room R'')"
  have u: "connections lobby_state ''U2'' = Some (member ''U2'' [])"
    by (simp add: lobby_state_def)
  have id: "u_ID (member ''U2'' []) = ''U2''"
    by (simp add: member_def)
  have nf: "faults (kv lobby_state) = []"
    by (simp add: lobby_state_def)
  obtain s' where run: "handleJoinRoom table_json 7 ''U2'' ?msg lobby_state = Done ((Joined, None), s')"
    by (simp add: handler_defs run_defs store_defs data_defs)
  have jd: "joinData table_json ?msg = Some ''R''"
    by (simp add: joinData_def frame_def table_json_def)
  have "sent lobby_state ''U2'' = []"
    by (simp add: sent_def data_defs)
  with join_confirmation [OF run u id] jd nf
  have "filter (\<lambda>m. msg_Type m = MessageTypeUserJoined) (sent s' ''U2'') =
        [\<lparr>msg_Type = MessageTypeUserJoined, msg_RoomID = ''R'', msg_UserID = ''U2'',
          msg_TargetID = [],
          msg_Data = UserJoinedData ''U2'' (connected_others s' ''R'' ''U2'' @ [''U2'']),
          msg_Timestamp = 7\<rparr>]"
    by auto
  with u id nf run show ?thesis by blast
qed

text \<open>
  Counterexample to C3 as written. \<open>U1\<close> is connected and in room \<open>R\<close>; \<open>U2\<close> joins
  \<open>R\<close>, and the tenth call of the store, the lookup of the other members after the join,
  fails. The handler only logs the failure: the join is a success, but the confirmation
  lists \<open>U2\<close> alone although \<open>U1\<close> is a connected other member.
\<close>

theorem join_confirmation_counterexample:
  "result_of (handleJoinRoom table_json 7 ''U2'' (frame MessageTypeJoinRoom [] (Raw ''room R''))
     faulty_lobby_state) = Some (Joined, None) \<and>
   sent_after (handleJoinRoom table_json 7 ''U2'' (frame MessageTypeJoinRoom [] (Raw ''room R''))
     faulty_lobby_state) ''U2'' =
     [\<lparr>msg_Type = MessageTypeUserJoined, msg_RoomID = ''R'', msg_UserID = ''U2'',
       msg_TargetID = [], msg_Data = UserJoinedData ''U2'' [''U2''], msg_Timestamp = 7\<rparr>] \<and>
   connected_others_after (handleJoinRoom table_json 7 ''U2''
     (frame MessageTypeJoinRoom [] (Raw ''room R'')) faulty_lobby_state) ''R'' ''U2'' = [''U1'']"
  by (simp add: handler_defs run_defs store_defs data_defs faulty_lobby_state_def sent_after_def
        sent_def result_of_def connected_others_after_def connected_others_def members_def)

subsection \<open>Who receives a \<^verbatim>\<open>user_joined\<close> frame\<close>






subsection \<open>Relaying offers, answers and candidates\<close>




subsection \<open>Errors that are returned, not sent\<close>

text \<open>
  Claim C1, evaluated on the code. \<open>U1\<close> is alone in room \<open>R\<close> and sends an offer to
  \<open>ghost\<close>, which has no connection. \<^verbatim>\<open>HandleMessage\<close> returns the error
  \<open>target user not connected: ghost\<close> to the read loop and leaves the state as it was:
  nothing is written to \<open>U1\<close>. The read loop goes on: the next frame, a join, is
  handled, and its confirmation is the only frame \<open>U1\<close> has received.
\<close>

theorem dead_target_no_error_frame:
  "HandleMessage table_json 7 ''U1'' ''offer to ghost'' alone_state =
     Done (Some (TargetNotConnected ''ghost''), alone_state) \<and>
   sent_after (handleConnection table_json ''U1'' [(7, ''offer to ghost''), (8, ''join R'')] alone_state) ''U1'' =
     [\<lparr>msg_Type = MessageTypeUserJoined, msg_RoomID = ''R'', msg_UserID = ''U1'',
       msg_TargetID = [], msg_Data = UserJoinedData ''U1'' [''U1''], msg_Timestamp = 8\<rparr>]"
  by (simp add: handler_defs run_defs store_defs data_defs sent_after_def sent_def)

text \<open>
  Claim C9, evaluated on the code. Bytes that do not decode, and a frame of the
  unknown kind \<open>dance\<close>: \<^verbatim>\<open>HandleMessage\<close> returns an error to the read loop and leaves
  the state as it was, so no error frame is written. The read loop goes on to the third
  frame, a join, whose confirmation is the only frame \<open>U1\<close> has received.
\<close>

theorem bad_frame_no_error_frame:
  "unmarshalMessage table_json ''not json'' = None \<and>
   HandleMessage table_json 7 ''U1'' ''not json'' alone_state = Done (Some UnmarshalFailed, alone_state) \<and>
   HandleMessage table_json 7 ''U1'' ''dance'' alone_state =
     Done (Some (UnknownMessageType ''dance''), alone_state) \<and>
   sent_after (handleConnection table_json ''U1'' [(7, ''not json''), (8, ''dance''), (9, ''join R'')]
     alone_state) ''U1'' =
     [\<lparr>msg_Type = MessageTypeUserJoined, msg_RoomID = ''R'', msg_UserID = ''U1'',
       msg_TargetID = [], msg_Data = UserJoinedData ''U1'' [''U1''], msg_Timestamp = 9\<rparr>]"
  by (simp add: handler_defs run_defs store_defs data_defs sent_after_def sent_def)

subsection \<open>The registry lock on disconnect\<close>

text \<open>
  \<^verbatim>\<open>AddConnection\<close> stores a user under its own id, outside any room, and leaves the
  lock free: this is where the premise \<open>u_ID u = p\<close> of the theorems above comes from.
\<close>

lemma AddConnection_keyed:
  assumes "AddConnection now userID conn sessionID s = Done (p, s')"
  shows "p = userID \<and> connMutex s' = Unlocked \<and> kv s' = kv s \<and>
         (\<exists>u. connections s' userID = Some u \<and> u_ID u = userID \<and> u_RoomID u = [] \<and>
              u_Connection u = conn) \<and>
         (\<forall>v. v \<noteq> userID \<longrightarrow> connections s' v = connections s v)"
  using assms
  by (auto simp: AddConnection_def andThen_def ret_def Lock_def Unlock_def split: if_splits)

text \<open>
  For a user in a room, \<^verbatim>\<open>RemoveConnection\<close> returns only when the leave failed in the
  store: whenever the leave succeeds, the second \<^verbatim>\<open>Lock\<close> is reached with the lock held.
\<close>

lemma RemoveConnection_returns:
  assumes "RemoveConnection now p s = Done (r, s')"
    and "connections s p = Some u" and "u_RoomID u \<noteq> []"
  shows "fst (LeaveRoom now (snd (GetOtherUsersInRoom (kv s) (u_RoomID u) (u_ID u)))
           (u_ID u) (u_RoomID u)) \<noteq> None"
  using assms
  by (auto simp: RemoveConnection_def handleLeaveRoom_def setRoomID_def andThen_def ret_def Lock_def
        Unlock_def deref_def kv_call_def Let_def
        split: if_splits prod.splits option.splits exec.splits)

text \<open>
  Claim C7, evaluated on the code. \<open>U1\<close> is in room \<open>R\<close> and its stream closes.
  \<^verbatim>\<open>RemoveConnection\<close> takes the registry lock and calls \<^verbatim>\<open>handleLeaveRoom\<close> with the
  lock held; the store calls of the leave run under the lock, and then
  \<^verbatim>\<open>handleLeaveRoom\<close> asks for the same lock again and never returns. Called from the
  read loop, without the lock, the same \<^verbatim>\<open>handleLeaveRoom\<close> returns.
\<close>

theorem RemoveConnection_blocks:
  "u_RoomID (member ''U1'' ''R'') = ''R'' \<and> connMutex alone_state = Unlocked \<and>
   RemoveConnection 9 ''U1'' alone_state = Blocked \<and>
   handleLeaveRoom 9 ''U1'' ''R'' (alone_state\<lparr>connMutex := Locked\<rparr>) = Blocked \<and>
   sent_after (handleLeaveRoom 9 ''U1'' ''R'' alone_state) ''U1'' = [] \<and>
   final_state (handleLeaveRoom 9 ''U1'' ''R'' alone_state) \<noteq> None"
  by (simp add: RemoveConnection_def handler_defs run_defs store_defs data_defs sent_after_def
        sent_def final_state_def)

end
